(* ===== verification/Prelude.thy ===== *)
theory Prelude
  imports Complex_Main "HOL-Library.Word"
begin

text \<open>
  Shared vocabulary of the development. Python exceptions are values of
  \<open>pyexc\<close>; a Python computation that may raise returns \<open>'a pyres\<close>
  (\<open>Inl\<close> the exception, \<open>Inr\<close> the value), and \<open>pyseq\<close> sequences two such
  computations the way Python statements are sequenced: the first exception
  aborts the rest. Python's \<open>str\<close> on non-negative integers is \<open>str_nat\<close>, and
  \<open>nat_of_digits\<close> reads a decimal back, with the round trip proved here.
  The collection \<open>py_simps\<close> gathers the evaluation rules the component
  theories add, so that their proofs are \<open>simp add: py_simps\<close>.
\<close>

named_theorems py_simps "evaluation rules of the Python model"

section \<open>Exceptions and fallible results\<close>

datatype pyexc =
    ValueError string
  | KeyError
  | IndexError
  | TypeError
  | OSError string
  | OverflowError
  | ImportError string

type_synonym 'a pyres = "pyexc + 'a"

text \<open>\<open>except ValueError:\<close> matches exactly the \<open>ValueError\<close> instances.\<close>

fun is_value_error :: "pyexc \<Rightarrow> bool" where
  "is_value_error (ValueError _) = True"
| "is_value_error _ = False"

text \<open>Sequential composition of two statements that may raise.\<close>

definition pyseq :: "'a pyres \<Rightarrow> ('a \<Rightarrow> 'b pyres) \<Rightarrow> 'b pyres" where
  "pyseq r f = (case r of Inl e \<Rightarrow> Inl e | Inr a \<Rightarrow> f a)"

section \<open>Decimal printing of integers\<close>

text \<open>
  Python's \<open>str(n)\<close> (and an f-string field \<open>{n}\<close>) for an integer \<open>n \<ge> 0\<close>:
  the decimal digits, most significant first, without padding.
\<close>

definition digit_char :: "nat \<Rightarrow> char" where
  "digit_char d = char_of (48 + d)"

fun str_nat :: "nat \<Rightarrow> string" where
  "str_nat n = (if n < 10 then [digit_char n] else str_nat (n div 10) @ [digit_char (n mod 10)])"

declare str_nat.simps [simp del]

text \<open>\<open>str\<close> on a Python \<open>int\<close> of either sign.\<close>

definition str_int :: "int \<Rightarrow> string" where
  "str_int i = (if i < 0 then CHR ''-'' # str_nat (nat (- i)) else str_nat (nat i))"

definition is_digit :: "char \<Rightarrow> bool" where
  "is_digit c \<longleftrightarrow> 48 \<le> (of_char c :: nat) \<and> (of_char c :: nat) < 58"

definition digit_val :: "char \<Rightarrow> nat" where
  "digit_val c = of_char c - 48"

text \<open>Reading a string of decimal digits back (Python's \<open>int(s)\<close> on digits).\<close>

definition nat_of_digits :: "string \<Rightarrow> nat" where
  "nat_of_digits s = foldl (\<lambda>acc c. 10 * acc + digit_val c) 0 s"

definition parse_nat :: "string \<Rightarrow> nat option" where
  "parse_nat s = (if s \<noteq> [] \<and> list_all is_digit s then Some (nat_of_digits s) else None)"

section \<open>Lemmas\<close>

subsection \<open>Sequencing\<close>

lemma pyseq_Inl [simp, py_simps]: "pyseq (Inl e) f = Inl e"
  by (simp add: pyseq_def)

lemma pyseq_Inr [simp, py_simps]: "pyseq (Inr a) f = f a"
  by (simp add: pyseq_def)

lemma pyseq_eq_Inr [simp]:
  "pyseq r f = Inr b \<longleftrightarrow> (\<exists>a. r = Inr a \<and> f a = Inr b)"
  by (cases r) auto

lemma pyseq_eq_Inl:
  "pyseq r f = Inl e \<longleftrightarrow> r = Inl e \<or> (\<exists>a. r = Inr a \<and> f a = Inl e)"
  by (cases r) auto

subsection \<open>Decimal strings\<close>

lemma str_nat_small [simp, py_simps]: "n < 10 \<Longrightarrow> str_nat n = [digit_char n]"
  by (simp add: str_nat.simps)

lemma str_nat_big [py_simps]:
  "\<not> n < 10 \<Longrightarrow> str_nat n = str_nat (n div 10) @ [digit_char (n mod 10)]"
  by (simp add: str_nat.simps [of n])

lemma digit_char_is_digit [simp]: "d < 10 \<Longrightarrow> is_digit (digit_char d)"
  by (simp add: digit_char_def is_digit_def)

lemma digit_val_digit_char [simp]: "d < 10 \<Longrightarrow> digit_val (digit_char d) = d"
  by (simp add: digit_char_def digit_val_def)

lemma str_nat_nonempty [simp]: "str_nat n \<noteq> []"
  by (cases "n < 10") (simp_all add: str_nat_big)

lemma str_nat_digits: "list_all is_digit (str_nat n)"
proof (induction n rule: str_nat.induct)
  case (1 n)
  then show ?case by (cases "n < 10") (simp_all add: str_nat_big)
qed

lemma nat_of_digits_snoc [simp]:
  "nat_of_digits (s @ [c]) = 10 * nat_of_digits s + digit_val c"
  by (simp add: nat_of_digits_def)

lemma nat_of_digits_str_nat [simp]: "nat_of_digits (str_nat n) = n"
proof (induction n rule: str_nat.induct)
  case (1 n)
  show ?case
  proof (cases "n < 10")
    case True
    then show ?thesis by (simp add: nat_of_digits_def)
  next
    case False
    with "1.IH" show ?thesis by (simp add: str_nat_big)
  qed
qed

text \<open>Printing then reading a natural number gives it back.\<close>

lemma parse_nat_str_nat [simp]: "parse_nat (str_nat n) = Some n"
  by (simp add: parse_nat_def str_nat_digits)

lemma str_nat_inj: "str_nat m = str_nat n \<longleftrightarrow> m = n"
  by (metis nat_of_digits_str_nat)

lemma str_nat_no_sep [simp]:
  "c \<in> set (str_nat n) \<Longrightarrow> is_digit c"
  using str_nat_digits [of n] by (simp add: list_all_iff)

subsection \<open>Integer division by constants\<close>

text \<open>
  Facts about \<open>div\<close> and \<open>mod\<close> by a positive constant that the calendar
  proofs use instead of letting the simplifier normalise such terms (which
  is slow on the large constants of the Gregorian cycles).
\<close>

lemma div_lin: "0 \<le> r \<Longrightarrow> r < k \<Longrightarrow> (k * q + r) div k = (q::int)"
  by simp

lemma mod_lin: "0 \<le> r \<Longrightarrow> r < k \<Longrightarrow> (k * q + r) mod k = (r::int)"
  by simp

lemma div_pred:
  fixes x k :: int assumes "1 < k"
  shows "x div k = (x - 1) div k + (if x mod k = 0 then 1 else 0)"
proof -
  define q r where "q = (x - 1) div k" and "r = (x - 1) mod k"
  have x: "x = k * q + (r + 1)" and r: "0 \<le> r" "r < k"
    using assms by (simp_all add: q_def r_def)
  show ?thesis
  proof (cases "r + 1 = k")
    case True
    then have eq: "x = k * (q + 1) + 0" using x by (simp add: algebra_simps)
    have "x div k = q + 1" unfolding eq by (rule div_lin) (use assms in simp_all)
    moreover have "x mod k = 0" unfolding eq by (rule mod_lin) (use assms in simp_all)
    ultimately show ?thesis by (simp add: q_def)
  next
    case False
    then have r1: "0 \<le> r + 1" "r + 1 < k" using r by simp_all
    have "x div k = q" unfolding x by (rule div_lin) (fact r1)+
    moreover have "x mod k = r + 1" unfolding x by (rule mod_lin) (fact r1)+
    ultimately show ?thesis using r q_def by simp
  qed
qed

lemma divmod_scaled:
  fixes a t k m :: int
  assumes "k \<noteq> 0"
  shows "(k * m * a + t) div k = m * a + t div k" "(k * m * a + t) mod k = t mod k"
proof -
  have e: "k * m * a + t = k * (m * a) + t" by simp
  show "(k * m * a + t) div k = m * a + t div k" unfolding e using assms by simp
  show "(k * m * a + t) mod k = t mod k" unfolding e using assms by simp
qed

lemma divmod_decomp:
  fixes x k :: int
  assumes "0 < k"
  shows "x = k * (x div k) + x mod k \<and> 0 \<le> x mod k \<and> x mod k < k"
  using assms by simp

lemma upto_all: "(\<forall>k\<in>{i..j}. P k) \<longleftrightarrow> list_all P [i..j]" for i j :: int
  by (simp add: list_all_iff)

end
