(* ===== verification/Json.thy ===== *)
theory Json
  imports Prelude
begin

text \<open>
  Values produced by \<open>request.json()\<close> and Python's subscript operator on
  them, as used on line 119 of the script:
  \<open>json['results'][i]['value_inc_vat']\<close>. A JSON object becomes a Python
  \<open>dict\<close> (an association list in document order; a duplicated key keeps its
  last value, as \<open>json.loads\<close> does), an array a \<open>list\<close>, a string a
  \<open>str\<close>. Subscripting raises \<open>KeyError\<close>, \<open>IndexError\<close> or \<open>TypeError\<close>
  exactly where Python does; none of these is a \<open>ValueError\<close>, so none is
  caught by the script's handler. Numbers keep Python's distinction between
  \<open>int\<close> and \<open>float\<close> (floats as their exact rational value), because the
  display prints them differently.
\<close>

datatype json =
    JNull
  | JBool bool
  | JInt int
  | JFloat rat
  | JStr string
  | JList "json list"
  | JObj "(string \<times> json) list"

text \<open>\<open>d[k]\<close> for a string key \<open>k\<close>.\<close>

fun getitem_key :: "json \<Rightarrow> string \<Rightarrow> json pyres" where
  "getitem_key (JObj kvs) k = (case map_of (rev kvs) k of None \<Rightarrow> Inl KeyError | Some v \<Rightarrow> Inr v)"
| "getitem_key _ k = Inl TypeError"

text \<open>
  \<open>x[i]\<close> for a literal index \<open>i \<ge> 0\<close>: a list or string index, or a dict
  lookup of the \<open>int\<close> key \<open>i\<close>, which no JSON object has (its keys are strings).
\<close>

fun getitem_idx :: "json \<Rightarrow> nat \<Rightarrow> json pyres" where
  "getitem_idx (JList xs) i = (if i < length xs then Inr (xs ! i) else Inl IndexError)"
| "getitem_idx (JStr s) i = (if i < length s then Inr (JStr [s ! i]) else Inl IndexError)"
| "getitem_idx (JObj kvs) i = Inl KeyError"
| "getitem_idx _ i = Inl TypeError"

text \<open>One price field: \<open>json['results'][i]['value_inc_vat']\<close>.\<close>

definition price_at :: "json \<Rightarrow> nat \<Rightarrow> json pyres" where
  "price_at j i =
     pyseq (getitem_key j ''results'') (\<lambda>rs.
     pyseq (getitem_idx rs i) (\<lambda>e.
     getitem_key e ''value_inc_vat''))"

type_synonym price3 = "json \<times> json \<times> json"

text \<open>
  The tuple of line 119, evaluated left to right: the first subscript that
  raises decides the exception.
\<close>

definition extract_prices :: "json \<Rightarrow> price3 pyres" where
  "extract_prices j =
     pyseq (price_at j 0) (\<lambda>p0.
     pyseq (price_at j 1) (\<lambda>p1.
     pyseq (price_at j 2) (\<lambda>p2. Inr (p0, p1, p2))))"

text \<open>The response shape the pricing API documents.\<close>

definition entry :: "json \<Rightarrow> json" where
  "entry v = JObj [(''value_inc_vat'', v)]"

definition api_response :: "json list \<Rightarrow> json" where
  "api_response vs = JObj [(''results'', JList (map entry vs))]"

section \<open>Lemmas\<close>

lemma getitem_key_entry [simp, py_simps]: "getitem_key (entry v) ''value_inc_vat'' = Inr v"
  by (simp add: entry_def)

lemma price_at_api_response [py_simps]:
  "price_at (api_response vs) i = (if i < length vs then Inr (vs ! i) else Inl IndexError)"
  by (simp add: price_at_def api_response_def)

lemma getitem_not_value_error:
  "getitem_key j k = Inl e \<Longrightarrow> \<not> is_value_error e"
  "getitem_idx j i = Inl e \<Longrightarrow> \<not> is_value_error e"
  by (cases j; auto split: option.splits if_splits)+

lemma price_at_not_value_error:
  "price_at j i = Inl e \<Longrightarrow> \<not> is_value_error e"
  by (auto simp: price_at_def pyseq_eq_Inl dest: getitem_not_value_error)

lemma extract_prices_not_value_error:
  "extract_prices j = Inl e \<Longrightarrow> \<not> is_value_error e"
  by (auto simp: extract_prices_def pyseq_eq_Inl dest: price_at_not_value_error)

lemma extract_prices_Inr:
  "extract_prices j = Inr (a, b, c) \<longleftrightarrow>
     price_at j 0 = Inr a \<and> price_at j 1 = Inr b \<and> price_at j 2 = Inr c"
  by (auto simp: extract_prices_def)

end
