(* ===== verification/Calendar.thy ===== *)
theory Calendar
  imports Prelude
begin

text \<open>
  The proleptic Gregorian calendar of Python's \<open>datetime\<close> module, as far as
  the script uses it (lines 106--108): building \<open>datetime(y, m, d, h, mi)\<close>
  with its range checks, and adding or subtracting a \<open>timedelta\<close> of whole
  minutes. The arithmetic goes through day ordinals exactly as the reference
  implementation does (\<open>_days_before_year\<close>, \<open>_days_before_month\<close>,
  \<open>_ymd2ord\<close>, \<open>_ord2ymd\<close> with its 400/100/4/1-year cycles, and
  \<open>datetime.__add__\<close>, which raises \<open>OverflowError\<close> outside ordinals
  \<open>1 .. 3652059\<close>). Seconds and microseconds are always zero in the script
  and are left out.
\<close>

definition MINYEAR :: int where "MINYEAR = 1"
definition MAXYEAR :: int where "MAXYEAR = 9999"
definition MAXORDINAL :: int where "MAXORDINAL = 3652059"

definition DAYS_IN_MONTH :: "int list" where
  "DAYS_IN_MONTH = [-1, 31, 28, 31, 30, 31, 30, 31, 31, 30, 31, 30, 31]"

definition DAYS_BEFORE_MONTH :: "int list" where
  "DAYS_BEFORE_MONTH = [-1, 0, 31, 59, 90, 120, 151, 181, 212, 243, 273, 304, 334]"

definition is_leap :: "int \<Rightarrow> bool" where
  "is_leap y \<longleftrightarrow> y mod 4 = 0 \<and> (y mod 100 \<noteq> 0 \<or> y mod 400 = 0)"

definition days_in_month :: "int \<Rightarrow> int \<Rightarrow> int" where
  "days_in_month y m = (if m = 2 \<and> is_leap y then 29 else DAYS_IN_MONTH ! nat m)"

definition days_before_year :: "int \<Rightarrow> int" where
  "days_before_year y = (let z = y - 1 in z * 365 + z div 4 - z div 100 + z div 400)"

definition days_before_month :: "int \<Rightarrow> int \<Rightarrow> int" where
  "days_before_month y m = DAYS_BEFORE_MONTH ! nat m + (if m > 2 \<and> is_leap y then 1 else 0)"

definition ymd2ord :: "int \<Rightarrow> int \<Rightarrow> int \<Rightarrow> int" where
  "ymd2ord y m d = days_before_year y + days_before_month y m + d"

text \<open>
  \<open>_ord2ymd\<close>: split \<open>n - 1\<close> into 400-year, 100-year, 4-year and 1-year
  cycles; the last day of a 4-year or 400-year cycle is the special case
  \<open>(year - 1, 12, 31)\<close>; the month is estimated as \<open>(n + 50) >> 5\<close> and
  corrected once.
\<close>

definition ord2md :: "bool \<Rightarrow> int \<Rightarrow> int \<times> int" where
  "ord2md leapyear n =
     (let month = (n + 50) div 32;
          preceding = DAYS_BEFORE_MONTH ! nat month + (if month > 2 \<and> leapyear then 1 else 0)
      in if preceding > n then
           let month' = month - 1;
               preceding' = preceding - (DAYS_IN_MONTH ! nat month' + (if month' = 2 \<and> leapyear then 1 else 0))
           in (month', n - preceding' + 1)
         else (month, n - preceding + 1))"

definition ord2ymd :: "int \<Rightarrow> int \<times> int \<times> int" where
  "ord2ymd n0 =
     (let n = n0 - 1;
          n400 = n div 146097; n = n mod 146097;
          n100 = n div 36524; n = n mod 36524;
          n4 = n div 1461; n = n mod 1461;
          n1 = n div 365; n = n mod 365;
          year = n400 * 400 + 1 + n100 * 100 + n4 * 4 + n1
      in if n1 = 4 \<or> n100 = 4 then (year - 1, 12, 31)
         else
           let leapyear = (n1 = 3 \<and> (n4 \<noteq> 24 \<or> n100 = 3))
           in case ord2md leapyear n of (month, d) \<Rightarrow> (year, month, d))"

record datetime =
  year :: int
  month :: int
  day :: int
  hour :: int
  minute :: int

definition valid_date :: "int \<Rightarrow> int \<Rightarrow> int \<Rightarrow> bool" where
  "valid_date y m d \<longleftrightarrow> MINYEAR \<le> y \<and> y \<le> MAXYEAR \<and> 1 \<le> m \<and> m \<le> 12 \<and> 1 \<le> d \<and> d \<le> days_in_month y m"

definition valid_dt :: "datetime \<Rightarrow> bool" where
  "valid_dt t \<longleftrightarrow> valid_date (year t) (month t) (day t) \<and>
     0 \<le> hour t \<and> hour t \<le> 23 \<and> 0 \<le> minute t \<and> minute t \<le> 59"

text \<open>\<open>datetime(year, month, day, hour, minute)\<close> with \<open>_check_date_fields\<close>
  and \<open>_check_time_fields\<close>: the first failing check raises \<open>ValueError\<close>.\<close>

definition mk_datetime :: "int \<Rightarrow> int \<Rightarrow> int \<Rightarrow> int \<Rightarrow> int \<Rightarrow> datetime pyres" where
  "mk_datetime y mo d h mi =
     (if \<not> (MINYEAR \<le> y \<and> y \<le> MAXYEAR) then Inl (ValueError (''year '' @ str_int y @ '' is out of range''))
      else if \<not> (1 \<le> mo \<and> mo \<le> 12) then Inl (ValueError ''month must be in 1..12'')
      else if \<not> (1 \<le> d \<and> d \<le> days_in_month y mo) then Inl (ValueError ''day is out of range for month'')
      else if \<not> (0 \<le> h \<and> h \<le> 23) then Inl (ValueError ''hour must be in 0..23'')
      else if \<not> (0 \<le> mi \<and> mi \<le> 59) then Inl (ValueError ''minute must be in 0..59'')
      else Inr \<lparr>year = y, month = mo, day = d, hour = h, minute = mi\<rparr>)"

definition toordinal :: "datetime \<Rightarrow> int" where
  "toordinal t = ymd2ord (year t) (month t) (day t)"

text \<open>Minutes since 0001-01-01 00:00 minus one day: the quantity
  \<open>datetime.__add__\<close> normalises.\<close>

definition abs_minutes :: "datetime \<Rightarrow> int" where
  "abs_minutes t = toordinal t * 1440 + hour t * 60 + minute t"

text \<open>\<open>t + timedelta(minutes=k)\<close> (and \<open>t - timedelta(minutes=k)\<close> as
  \<open>k\<close> negative): normalise to days and minutes, then \<open>fromordinal\<close>.\<close>

definition dt_add_minutes :: "datetime \<Rightarrow> int \<Rightarrow> datetime pyres" where
  "dt_add_minutes t k =
     (let total = abs_minutes t + k;
          days = total div 1440; rem = total mod 1440
      in if 0 < days \<and> days \<le> MAXORDINAL then
           (case ord2ymd days of (y, m, d) \<Rightarrow>
              Inr \<lparr>year = y, month = m, day = d, hour = rem div 60, minute = rem mod 60\<rparr>)
         else Inl OverflowError)"

section \<open>Lemmas\<close>

subsection \<open>Days before a year\<close>

lemma leap_indicator:
  "(if is_leap y then 1 else 0 :: int) =
      (if y mod 4 = 0 then 1 else 0) - (if y mod 100 = 0 then 1 else 0) + (if y mod 400 = 0 then 1 else 0)"
proof -
  have h: "y mod 400 = 0 \<Longrightarrow> y mod 100 = 0" "y mod 100 = 0 \<Longrightarrow> y mod 4 = 0"
    using mod_mod_cancel [of 100 400 y] mod_mod_cancel [of 4 100 y] by simp_all
  show ?thesis
  proof (cases "y mod 400 = 0")
    case True
    then show ?thesis using h(1) [OF True] h(2) [OF h(1) [OF True]] unfolding is_leap_def by simp
  next
    case F400: False
    show ?thesis
    proof (cases "y mod 100 = 0")
      case True
      then show ?thesis using h(2) [OF True] F400 unfolding is_leap_def by simp
    next
      case False
      then show ?thesis using F400 unfolding is_leap_def by simp
    qed
  qed
qed

lemma dby_succ: "days_before_year (y + 1) = days_before_year y + 365 + (if is_leap y then 1 else 0)"
proof -
  have A: "days_before_year (y + 1) = y * 365 + y div 4 - y div 100 + y div 400"
    by (simp add: days_before_year_def Let_def)
  have B: "days_before_year y = (y - 1) * 365 + (y - 1) div 4 - (y - 1) div 100 + (y - 1) div 400"
    by (simp add: days_before_year_def Let_def)
  define p4 p100 p400 where "p4 = (y - 1) div 4" and "p100 = (y - 1) div 100" and "p400 = (y - 1) div 400"
  define i4 i100 i400 where "i4 = (if y mod 4 = 0 then 1 else 0 :: int)"
    and "i100 = (if y mod 100 = 0 then 1 else 0 :: int)" and "i400 = (if y mod 400 = 0 then 1 else 0 :: int)"
  have "y div 4 = p4 + i4" "y div 100 = p100 + i100" "y div 400 = p400 + i400"
    unfolding p4_def p100_def p400_def i4_def i100_def i400_def
    by (rule div_pred; simp)+
  then show ?thesis
    unfolding A B leap_indicator
    by (simp only: flip: p4_def p100_def p400_def i4_def i100_def i400_def) (simp add: algebra_simps)
qed

lemma dby_400: "days_before_year (400 * a + t + 1) = 146097 * a + days_before_year (t + 1)"
proof -
  have "(400 * a + t) div 4 = 100 * a + t div 4" "(400 * a + t) div 100 = 4 * a + t div 100"
       "(400 * a + t) div 400 = a + t div 400"
    using divmod_scaled(1) [of 4 100 a t] divmod_scaled(1) [of 100 4 a t] divmod_scaled(1) [of 400 1 a t]
    by simp_all
  then show ?thesis by (simp add: days_before_year_def Let_def)
qed

lemma leap_400: "is_leap (400 * a + t) = is_leap t"
  using divmod_scaled(2) [of 4 100 a t] divmod_scaled(2) [of 100 4 a t] divmod_scaled(2) [of 400 1 a t]
  by (simp add: is_leap_def)

lemma year_in_cycle:
  fixes b c e :: int
  assumes b: "0 \<le> b" "b \<le> 3" and c: "0 \<le> c" "c \<le> 24" and e: "0 \<le> e" "e \<le> 3"
  shows "days_before_year (100 * b + 4 * c + e + 1) = 36524 * b + 1461 * c + 365 * e"
    and "is_leap (100 * b + 4 * c + e + 1) \<longleftrightarrow> e = 3 \<and> (c \<noteq> 24 \<or> b = 3)"
proof -
  have "(4 * (25 * b + c) + e) div 4 = 25 * b + c" by (rule div_lin) (use e in simp_all)
  moreover have "(100 * b + (4 * c + e)) div 100 = b" by (rule div_lin) (use c e in simp_all)
  moreover have "(400 * 0 + (100 * b + 4 * c + e)) div 400 = 0" by (rule div_lin) (use b c e in simp_all)
  ultimately show "days_before_year (100 * b + 4 * c + e + 1) = 36524 * b + 1461 * c + 365 * e"
    by (simp add: days_before_year_def algebra_simps)
  show "is_leap (100 * b + 4 * c + e + 1) \<longleftrightarrow> e = 3 \<and> (c \<noteq> 24 \<or> b = 3)"
  proof (cases "e = 3")
    case False
    then have "(4 * (25 * b + c) + (e + 1)) mod 4 = e + 1" by (intro mod_lin) (use e in simp_all)
    with False e show ?thesis by (simp add: is_leap_def algebra_simps)
  next
    case e3: True
    have m4: "(4 * (25 * b + c + 1) + 0) mod 4 = 0" by simp
    show ?thesis
    proof (cases "c = 24")
      case False
      then have "(100 * b + (4 * c + 4)) mod 100 = 4 * c + 4" by (intro mod_lin) (use c in simp_all)
      with False e3 m4 c show ?thesis by (simp add: is_leap_def algebra_simps)
    next
      case c24: True
      show ?thesis
      proof (cases "b = 3")
        case True
        with c24 e3 show ?thesis by (simp add: is_leap_def)
      next
        case False
        have "(400 * 0 + 100 * (b + 1)) mod 400 = 100 * (b + 1)"
          by (intro mod_lin) (use b False in simp_all)
        with c24 e3 False b show ?thesis by (simp add: is_leap_def algebra_simps)
      qed
    qed
  qed
qed

subsection \<open>The month table\<close>

lemma ord2md_table:
  "\<forall>n\<in>{0..364::int}. \<forall>lp\<in>{True, False}. case ord2md lp n of (m, d) \<Rightarrow>
     1 \<le> m \<and> m \<le> 12 \<and> 1 \<le> d \<and> d \<le> (if m = 2 \<and> lp then 29 else DAYS_IN_MONTH ! nat m) \<and>
     DAYS_BEFORE_MONTH ! nat m + (if m > 2 \<and> lp then 1 else 0) + d = n + 1"
  unfolding upto_all
  by (simp add: ord2md_def DAYS_IN_MONTH_def DAYS_BEFORE_MONTH_def Let_def upto.simps)

lemma ord2md_correct:
  assumes "0 \<le> n" "n \<le> 364" "ord2md (is_leap y) n = (m, d)"
  shows "1 \<le> m \<and> m \<le> 12 \<and> 1 \<le> d \<and> d \<le> days_in_month y m \<and> days_before_month y m + d = n + 1"
proof -
  have "n \<in> {0..364}" "is_leap y \<in> {True, False}" using assms(1,2) by simp_all
  then have "case ord2md (is_leap y) n of (m, d) \<Rightarrow>
     1 \<le> m \<and> m \<le> 12 \<and> 1 \<le> d \<and> d \<le> (if m = 2 \<and> is_leap y then 29 else DAYS_IN_MONTH ! nat m) \<and>
     DAYS_BEFORE_MONTH ! nat m + (if m > 2 \<and> is_leap y then 1 else 0) + d = n + 1"
    by (rule bspec [OF bspec [OF ord2md_table]])
  with assms(3) show ?thesis by (simp add: days_in_month_def days_before_month_def)
qed

lemma ymd2ord_dec31: "ymd2ord y 12 31 = days_before_year (y + 1)"
  by (simp add: ymd2ord_def dby_succ days_before_month_def DAYS_BEFORE_MONTH_def)

subsection \<open>\<open>_ord2ymd\<close> inverts \<open>_ymd2ord\<close>\<close>

lemma ord2ymd_correct:
  assumes "1 \<le> n0" "ord2ymd n0 = (y, m, d)"
  shows "1 \<le> y \<and> 1 \<le> m \<and> m \<le> 12 \<and> 1 \<le> d \<and> d \<le> days_in_month y m \<and> ymd2ord y m d = n0"
proof -
  define n where "n = n0 - 1"
  define a r1 where "a = n div 146097" and "r1 = n mod 146097"
  define b r2 where "b = r1 div 36524" and "r2 = r1 mod 36524"
  define c r3 where "c = r2 div 1461" and "r3 = r2 mod 1461"
  define e r4 where "e = r3 div 365" and "r4 = r3 mod 365"
  have n: "n = 146097 * a + r1 \<and> 0 \<le> r1 \<and> r1 < 146097"
    unfolding a_def r1_def by (rule divmod_decomp) simp
  have r1: "r1 = 36524 * b + r2 \<and> 0 \<le> r2 \<and> r2 < 36524"
    unfolding b_def r2_def by (rule divmod_decomp) simp
  have r2: "r2 = 1461 * c + r3 \<and> 0 \<le> r3 \<and> r3 < 1461"
    unfolding c_def r3_def by (rule divmod_decomp) simp
  have r3: "r3 = 365 * e + r4 \<and> 0 \<le> r4 \<and> r4 < 365"
    unfolding e_def r4_def by (rule divmod_decomp) simp
  have "0 \<le> n" using assms(1) n_def by simp
  then have nn: "0 \<le> a" "0 \<le> b" "0 \<le> c" "0 \<le> e" using n r1 r2 r3 by linarith+
  have bnd: "b \<le> 4" "c \<le> 24" "e \<le> 4" using n r1 r2 r3 nn by linarith+
  have ord0: "ord2ymd n0 =
     (if e = 4 \<or> b = 4 then (a * 400 + 1 + b * 100 + c * 4 + e - 1, 12, 31)
      else case ord2md (e = 3 \<and> (c \<noteq> 24 \<or> b = 3)) r4 of (mo, dd) \<Rightarrow> (a * 400 + 1 + b * 100 + c * 4 + e, mo, dd))"
    unfolding ord2ymd_def Let_def
    by (simp only: flip: n_def, simp only: flip: a_def r1_def, simp only: flip: b_def r2_def,
        simp only: flip: c_def r3_def, simp only: flip: e_def r4_def)
  have ord: "ord2ymd n0 =
     (if e = 4 \<or> b = 4 then (400 * a + 100 * b + 4 * c + e, 12, 31)
      else case ord2md (e = 3 \<and> (c \<noteq> 24 \<or> b = 3)) r4 of (mo, dd) \<Rightarrow> (400 * a + 100 * b + 4 * c + e + 1, mo, dd))"
    unfolding ord0 by (simp add: algebra_simps)
  show ?thesis
  proof (cases "e = 4 \<or> b = 4")
    case True
    then have y: "y = 400 * a + 100 * b + 4 * c + e" "m = 12" "d = 31" using ord assms(2) by simp_all
    have "days_before_year (y + 1) = n0"
    proof (cases "b = 4")
      case True
      then have "r1 = 146096" "c = 0" "e = 0" using n r1 r2 r3 nn by linarith+
      with True have "y + 1 = 400 * (a + 1) + 0 + 1" "n0 = 146097 * (a + 1)"
        using y n n_def by simp_all
      then show ?thesis by (simp only: dby_400) (simp add: days_before_year_def)
    next
      case False
      with True have e4: "e = 4" "r4 = 0" "c \<le> 23" "b \<le> 3" using n r1 r2 r3 nn bnd by linarith+
      have "days_before_year ((100 * b + 4 * c + 3 + 1) + 1) =
          days_before_year (100 * b + 4 * c + 3 + 1) + 365 + (if is_leap (100 * b + 4 * c + 3 + 1) then 1 else 0)"
        by (rule dby_succ)
      then have "days_before_year (100 * b + 4 * c + 3 + 1 + 1) = 36524 * b + 1461 * c + 1461"
        using year_in_cycle [of b c 3] e4 r1 r2 nn by simp
      moreover have "y + 1 = 400 * a + (100 * b + 4 * c + 3 + 1) + 1" using y e4 by simp
      ultimately show ?thesis using dby_400 [of a "100 * b + 4 * c + 3 + 1"] e4 n r1 r2 r3 nn n_def
        by simp
    qed
    moreover have "1 \<le> y" using y True n r1 r2 r3 nn by linarith
    ultimately show ?thesis using y by (simp add: ymd2ord_dec31 days_in_month_def DAYS_IN_MONTH_def)
  next
    case False
    then have bnd': "b \<le> 3" "e \<le> 3" using bnd by simp_all
    define yr where "yr = 400 * a + 100 * b + 4 * c + e + 1"
    have lp: "is_leap yr \<longleftrightarrow> e = 3 \<and> (c \<noteq> 24 \<or> b = 3)"
      using leap_400 [of a "100 * b + 4 * c + e + 1"] year_in_cycle(2) [of b c e] r1 r2 r3 bnd bnd' nn
      by (simp add: yr_def add.assoc)
    have dby: "days_before_year yr = 146097 * a + 36524 * b + 1461 * c + 365 * e"
      using dby_400 [of a "100 * b + 4 * c + e"] year_in_cycle(1) [of b c e] r1 r2 r3 bnd bnd' nn
      by (simp add: yr_def add.assoc)
    have md: "ord2md (is_leap yr) r4 = (m, d)" and y: "y = yr"
      using ord assms(2) False lp by (simp_all add: yr_def split: prod.splits)
    have "1 \<le> m \<and> m \<le> 12 \<and> 1 \<le> d \<and> d \<le> days_in_month yr m \<and> days_before_month yr m + d = r4 + 1"
      using ord2md_correct [OF _ _ md] r3 by simp
    moreover have "1 \<le> yr" using n r1 r2 r3 nn by (simp add: yr_def)
    ultimately show ?thesis using y dby n r1 r2 r3 nn n_def by (simp add: ymd2ord_def)
  qed
qed

subsection \<open>Ordinals determine dates\<close>

lemma dby_le_succ: "days_before_year y + 365 \<le> days_before_year (y + 1)"
  by (simp add: dby_succ)

lemma dby_mono_strict: "y1 < y2 \<Longrightarrow> days_before_year y1 < days_before_year y2"
proof (induction y2 rule: int_gr_induct)
  case base
  then show ?case using dby_le_succ [of y1] by simp
next
  case (step i)
  then show ?case using dby_le_succ [of i] by simp
qed

lemma dby_mono: "y1 \<le> y2 \<Longrightarrow> days_before_year y1 \<le> days_before_year y2"
  using dby_mono_strict [of y1 y2] by (cases "y1 = y2") simp_all

lemma month_layout:
  "\<forall>lp\<in>{True, False}. \<forall>m\<in>{1..12::int}.
     0 \<le> DAYS_BEFORE_MONTH ! nat m + (if m > 2 \<and> lp then 1 else 0) \<and>
     DAYS_BEFORE_MONTH ! nat m + (if m > 2 \<and> lp then 1 else 0) + (if m = 2 \<and> lp then 29 else DAYS_IN_MONTH ! nat m)
       \<le> 365 + (if lp then 1 else 0) \<and>
     (\<forall>m'\<in>{1..12::int}. m < m' \<longrightarrow>
        DAYS_BEFORE_MONTH ! nat m + (if m > 2 \<and> lp then 1 else 0) + (if m = 2 \<and> lp then 29 else DAYS_IN_MONTH ! nat m)
          \<le> DAYS_BEFORE_MONTH ! nat m' + (if m' > 2 \<and> lp then 1 else 0))"
  unfolding upto_all
  by (simp add: DAYS_IN_MONTH_def DAYS_BEFORE_MONTH_def upto.simps)

lemma month_facts:
  assumes "1 \<le> m" "m \<le> 12"
  shows "0 \<le> days_before_month y m"
    and "days_before_month y m + days_in_month y m \<le> 365 + (if is_leap y then 1 else 0)"
    and "m < m' \<Longrightarrow> m' \<le> 12 \<Longrightarrow> days_before_month y m + days_in_month y m \<le> days_before_month y m'"
proof -
  have lp: "is_leap y \<in> {True, False}" and m: "m \<in> {1..12}" using assms by simp_all
  note row = bspec [OF bspec [OF month_layout lp] m]
  show "0 \<le> days_before_month y m"
    using row by (simp add: days_before_month_def)
  show "days_before_month y m + days_in_month y m \<le> 365 + (if is_leap y then 1 else 0)"
    using row by (simp add: days_before_month_def days_in_month_def)
  show "days_before_month y m + days_in_month y m \<le> days_before_month y m'"
    if "m < m'" "m' \<le> 12"
  proof -
    have "m' \<in> {1..12}" using that assms by simp
    with row that show ?thesis by (simp add: days_before_month_def days_in_month_def)
  qed
qed

lemma ymd2ord_bounds:
  assumes "1 \<le> m" "m \<le> 12" "1 \<le> d" "d \<le> days_in_month y m"
  shows "days_before_year y < ymd2ord y m d" "ymd2ord y m d \<le> days_before_year (y + 1)"
  using month_facts(1,2) [OF assms(1,2), of y] assms dby_succ [of y]
  by (simp_all add: ymd2ord_def)

lemma ymd2ord_inj:
  assumes v1: "1 \<le> m" "m \<le> 12" "1 \<le> d" "d \<le> days_in_month y m"
    and v2: "1 \<le> m'" "m' \<le> 12" "1 \<le> d'" "d' \<le> days_in_month y' m'"
    and eq: "ymd2ord y m d = ymd2ord y' m' d'"
  shows "y = y' \<and> m = m' \<and> d = d'"
proof -
  have less: "ymd2ord y m d < ymd2ord y' m' d'"
    if "y < y'" "1 \<le> m" "m \<le> 12" "1 \<le> d" "d \<le> days_in_month y m"
      "1 \<le> m'" "m' \<le> 12" "1 \<le> d'" "d' \<le> days_in_month y' m'" for y m d y' m' d'
    using ymd2ord_bounds [of m d y] ymd2ord_bounds [of m' d' y'] dby_mono [of "y + 1" y'] that
    by fastforce
  have y: "y = y'"
    using less [of y y' m d m' d'] less [of y' y m' d' m d] v1 v2 eq by (cases y y' rule: linorder_cases) auto
  have mless: "days_before_month y m + d < days_before_month y m' + d'"
    if "m < m'" "1 \<le> m" "m \<le> 12" "1 \<le> d" "d \<le> days_in_month y m" "1 \<le> d'" "m' \<le> 12"
    for m d m' d'
    using month_facts(3) [where m = m and y = y and m' = m'] that by simp
  have "days_before_month y m + d = days_before_month y m' + d'"
    using eq y by (simp add: ymd2ord_def)
  then have "m = m'"
    using mless [of m m' d d'] mless [of m' m d' d] v1 v2 y by (cases m m' rule: linorder_cases) auto
  with \<open>days_before_month y m + d = days_before_month y m' + d'\<close> y show ?thesis by simp
qed

lemma ymd2ord_pos:
  assumes "1 \<le> y" "1 \<le> m" "m \<le> 12" "1 \<le> d" "d \<le> days_in_month y m"
  shows "1 \<le> ymd2ord y m d"
proof -
  have "days_before_year 1 \<le> days_before_year y" using assms(1) by (rule dby_mono)
  then have "0 \<le> days_before_year y" by (simp add: days_before_year_def)
  then show ?thesis using ymd2ord_bounds(1) [OF assms(2-5)] by simp
qed

text \<open>
  C16. Round trip date to ordinal to date: \<open>_ord2ymd\<close> recovers every
  valid date (any year from 1 on) from its ordinal \<open>_ymd2ord\<close>.
\<close>

lemma ord2ymd_ymd2ord:
  assumes "1 \<le> y" "1 \<le> m" "m \<le> 12" "1 \<le> d" "d \<le> days_in_month y m"
  shows "ord2ymd (ymd2ord y m d) = (y, m, d)"
proof -
  obtain y' m' d' where o: "ord2ymd (ymd2ord y m d) = (y', m', d')" by (cases "ord2ymd (ymd2ord y m d)") auto
  have "1 \<le> y' \<and> 1 \<le> m' \<and> m' \<le> 12 \<and> 1 \<le> d' \<and> d' \<le> days_in_month y' m' \<and> ymd2ord y' m' d' = ymd2ord y m d"
    by (rule ord2ymd_correct [OF ymd2ord_pos [OF assms] o])
  then have "y' = y \<and> m' = m \<and> d' = d" using ymd2ord_inj [of m' d' y' m d y] assms by simp
  with o show ?thesis by simp
qed

lemma ord2ymd_ymd2ord_witness: "ord2ymd (ymd2ord 2024 2 29) = (2024, 2, 29)"
  using ord2ymd_ymd2ord [of 2024 2 29]
  by (simp add: days_in_month_def is_leap_def DAYS_IN_MONTH_def)

lemma dby_10000: "days_before_year 10000 = MAXORDINAL"
  by (simp add: days_before_year_def MAXORDINAL_def)

lemma ord2ymd_year_bound:
  assumes "1 \<le> n" "n \<le> MAXORDINAL" "ord2ymd n = (y, m, d)"
  shows "y \<le> MAXYEAR"
proof (rule ccontr)
  assume "\<not> y \<le> MAXYEAR"
  then have "days_before_year 10000 \<le> days_before_year y" by (intro dby_mono) (simp add: MAXYEAR_def)
  moreover have "1 \<le> m \<and> m \<le> 12 \<and> 1 \<le> d \<and> d \<le> days_in_month y m \<and> ymd2ord y m d = n"
    using ord2ymd_correct [OF assms(1,3)] by simp
  ultimately show False using ymd2ord_bounds(1) [of m d y] assms(2) dby_10000 by simp
qed

text \<open>
  C17. Round trip ordinal to date to ordinal: for every ordinal in
  \<open>1 .. 3652059\<close>, the optimised \<open>_ord2ymd\<close> (cycle arithmetic and the
  \<open>(n + 50) >> 5\<close> month estimate) yields a valid date of years 1 to 9999
  whose ordinal is the input.
\<close>

theorem fromordinal_valid:
  assumes "1 \<le> n" "n \<le> MAXORDINAL"
  shows "case ord2ymd n of (y, m, d) \<Rightarrow> valid_date y m d \<and> ymd2ord y m d = n"
proof -
  obtain y m d where o: "ord2ymd n = (y, m, d)" by (cases "ord2ymd n") auto
  have "1 \<le> y \<and> 1 \<le> m \<and> m \<le> 12 \<and> 1 \<le> d \<and> d \<le> days_in_month y m \<and> ymd2ord y m d = n"
    using ord2ymd_correct [OF assms(1) o] .
  moreover have "y \<le> MAXYEAR" using ord2ymd_year_bound [OF assms o] .
  ultimately show ?thesis using o by (simp add: valid_date_def MINYEAR_def)
qed

lemma fromordinal_valid_witness:
  "case ord2ymd 738900 of (y, m, d) \<Rightarrow> valid_date y m d \<and> ymd2ord y m d = 738900"
  using fromordinal_valid [of 738900] by (simp add: MAXORDINAL_def)

subsection \<open>Datetime arithmetic\<close>

lemma dt_add_minutes_Inr:
  assumes "dt_add_minutes t k = Inr t'"
  shows "valid_dt t' \<and> abs_minutes t' = abs_minutes t + k"
proof -
  define total where "total = abs_minutes t + k"
  define days rem where "days = total div 1440" and "rem = total mod 1440"
  define hh mm where "hh = rem div 60" and "mm = rem mod 60"
  obtain y m d where o: "ord2ymd days = (y, m, d)" by (cases "ord2ymd days") auto
  have range: "0 < days" "days \<le> MAXORDINAL"
    and t': "t' = \<lparr>year = y, month = m, day = d, hour = hh, minute = mm\<rparr>"
    using assms o unfolding dt_add_minutes_def Let_def
    by (simp_all only: flip: total_def days_def rem_def hh_def mm_def) (simp_all split: if_splits)
  have ymd: "1 \<le> y \<and> 1 \<le> m \<and> m \<le> 12 \<and> 1 \<le> d \<and> d \<le> days_in_month y m \<and> ymd2ord y m d = days"
    using ord2ymd_correct [of days y m d] range o by simp
  have "y \<le> MAXYEAR" using ord2ymd_year_bound [of days y m d] range o by simp
  moreover have tot: "total = 1440 * days + rem \<and> 0 \<le> rem \<and> rem < 1440"
    unfolding days_def rem_def by (rule divmod_decomp) simp
  moreover have hm: "rem = 60 * hh + mm \<and> 0 \<le> mm \<and> mm < 60"
    unfolding hh_def mm_def by (rule divmod_decomp) simp
  moreover have "0 \<le> hh" "hh \<le> 23" using tot hm by linarith+
  ultimately have "valid_dt t'" using ymd t' by (simp add: valid_dt_def valid_date_def MINYEAR_def)
  moreover have "abs_minutes t' = 1440 * days + rem"
    using t' ymd hm by (simp add: abs_minutes_def toordinal_def)
  ultimately show ?thesis using tot total_def by simp
qed

lemma dt_add_minutes_Inl:
  "dt_add_minutes t k = Inl e \<longleftrightarrow>
     e = OverflowError \<and> \<not> (0 < (abs_minutes t + k) div 1440 \<and> (abs_minutes t + k) div 1440 \<le> MAXORDINAL)"
  by (auto simp add: dt_add_minutes_def Let_def split: prod.splits)

lemma abs_minutes_split:
  assumes "valid_dt t"
  shows "abs_minutes t div 1440 = toordinal t" "abs_minutes t mod 1440 = hour t * 60 + minute t"
proof -
  have eq: "abs_minutes t = 1440 * toordinal t + (hour t * 60 + minute t)"
    by (simp add: abs_minutes_def)
  have b: "0 \<le> hour t * 60 + minute t" "hour t * 60 + minute t < 1440"
    using assms by (simp_all add: valid_dt_def)
  show "abs_minutes t div 1440 = toordinal t" unfolding eq by (rule div_lin) (fact b)+
  show "abs_minutes t mod 1440 = hour t * 60 + minute t" unfolding eq by (rule mod_lin) (fact b)+
qed

lemma hour_minute_inj:
  assumes "h1 * 60 + m1 = h2 * 60 + (m2::int)" "0 \<le> m1" "m1 < 60" "0 \<le> m2" "m2 < 60"
  shows "h1 = h2 \<and> m1 = m2"
proof -
  have "(60 * h1 + m1) div 60 = h1" "(60 * h2 + m2) div 60 = h2"
    using assms by (simp_all only: div_lin)
  moreover have "(60 * h1 + m1) mod 60 = m1" "(60 * h2 + m2) mod 60 = m2"
    using assms by (simp_all only: mod_lin)
  ultimately show ?thesis using assms(1) by (metis add.commute mult.commute)
qed

lemma abs_minutes_inj:
  assumes "valid_dt t1" "valid_dt t2" "abs_minutes t1 = abs_minutes t2"
  shows "t1 = t2"
proof -
  have o: "toordinal t1 = toordinal t2" and hm: "hour t1 * 60 + minute t1 = hour t2 * 60 + minute t2"
    using abs_minutes_split [OF assms(1)] abs_minutes_split [OF assms(2)] assms(3) by simp_all
  have "hour t1 = hour t2 \<and> minute t1 = minute t2"
    by (rule hour_minute_inj [OF hm]) (use assms(1,2) in \<open>simp_all add: valid_dt_def\<close>)
  moreover have "year t1 = year t2 \<and> month t1 = month t2 \<and> day t1 = day t2"
    using ymd2ord_inj [of "month t1" "day t1" "year t1" "month t2" "day t2" "year t2"] o assms(1,2)
    by (simp add: valid_dt_def valid_date_def toordinal_def)
  ultimately show ?thesis by simp
qed

lemma ymd2ord_le_max:
  assumes "valid_date y m d"
  shows "ymd2ord y m d \<le> MAXORDINAL"
proof -
  have "ymd2ord y m d \<le> days_before_year (y + 1)"
    using assms by (intro ymd2ord_bounds(2)) (simp_all add: valid_date_def)
  also have "\<dots> \<le> days_before_year 10000"
    using assms by (intro dby_mono) (simp add: valid_date_def MAXYEAR_def)
  finally show ?thesis by (simp add: dby_10000)
qed

lemma dby_2: "days_before_year 2 = 365"
  by (simp add: days_before_year_def)

lemma dby_9999: "days_before_year 9999 = MAXORDINAL - 365"
  by (simp add: days_before_year_def MAXORDINAL_def)

lemma dt_add_minutes_inner:
  assumes t: "valid_dt t" and y: "2 \<le> year t" "year t \<le> 9998" and k: "-1440 \<le> k" "k \<le> 1440"
  shows "\<exists>t'. dt_add_minutes t k = Inr t'"
proof -
  define od where "od = toordinal t"
  define x where "x = hour t * 60 + minute t + k"
  have vd: "1 \<le> month t" "month t \<le> 12" "1 \<le> day t" "day t \<le> days_in_month (year t) (month t)"
    using t by (simp_all add: valid_dt_def valid_date_def)
  have "days_before_year 2 \<le> days_before_year (year t)" using y(1) by (rule dby_mono)
  moreover have "days_before_year (year t) < od"
    using ymd2ord_bounds(1) [OF vd] by (simp add: od_def toordinal_def)
  ultimately have lo: "366 \<le> od" by (simp add: dby_2)
  have "days_before_year (year t + 1) \<le> days_before_year 9999" using y(2) by (intro dby_mono) simp
  moreover have "od \<le> days_before_year (year t + 1)"
    using ymd2ord_bounds(2) [OF vd] by (simp add: od_def toordinal_def)
  ultimately have hi: "od \<le> MAXORDINAL - 365" by (simp add: dby_9999)
  have xb: "-1440 \<le> x" "x \<le> 2879" using t k by (simp_all add: x_def valid_dt_def)
  have "(-1440) div 1440 \<le> x div (1440::int)" using xb(1) by (rule zdiv_mono1) simp
  then have d1: "-1 \<le> x div 1440" by simp
  have "x div 1440 \<le> 2879 div (1440::int)" using xb(2) by (rule zdiv_mono1) simp
  then have d2: "x div 1440 \<le> 1" by simp
  have "abs_minutes t + k = 1440 * od + x" by (simp add: abs_minutes_def od_def x_def)
  then have "(abs_minutes t + k) div 1440 = od + x div 1440" by simp
  then have "0 < (abs_minutes t + k) div 1440 \<and> (abs_minutes t + k) div 1440 \<le> MAXORDINAL"
    using lo hi d1 d2 by (simp add: MAXORDINAL_def)
  then show ?thesis using dt_add_minutes_Inl [of t k] by (cases "dt_add_minutes t k") auto
qed

text \<open>
  C15. Refinement: adding \<open>k\<close> minutes to a datetime succeeds with \<open>t'\<close>
  exactly when \<open>t'\<close> is a valid datetime (years 1 to 9999) lying \<open>k\<close> minutes
  after \<open>t\<close>; so the calendar arithmetic of lines 107--108 is integer
  arithmetic on minutes, with \<open>OverflowError\<close> outside the supported range.
\<close>

theorem dt_add_minutes_spec:
  "dt_add_minutes t k = Inr t' \<longleftrightarrow> valid_dt t' \<and> abs_minutes t' = abs_minutes t + k"
proof
  assume "dt_add_minutes t k = Inr t'"
  then show "valid_dt t' \<and> abs_minutes t' = abs_minutes t + k" by (rule dt_add_minutes_Inr)
next
  assume r: "valid_dt t' \<and> abs_minutes t' = abs_minutes t + k"
  then have days: "(abs_minutes t + k) div 1440 = toordinal t'"
    using abs_minutes_split(1) [of t'] by simp
  have "1 \<le> toordinal t'" "toordinal t' \<le> MAXORDINAL"
    using r ymd2ord_pos [of "year t'" "month t'" "day t'"] ymd2ord_le_max [of "year t'" "month t'" "day t'"]
    by (simp_all add: valid_dt_def valid_date_def MINYEAR_def toordinal_def)
  then obtain t'' where t'': "dt_add_minutes t k = Inr t''"
    using days dt_add_minutes_Inl [of t k] by (cases "dt_add_minutes t k") auto
  then have "valid_dt t'' \<and> abs_minutes t'' = abs_minutes t + k" by (rule dt_add_minutes_Inr)
  then have "t'' = t'" using r abs_minutes_inj [of t'' t'] by simp
  with t'' show "dt_add_minutes t k = Inr t'" by simp
qed

lemma dt_add_minutes_spec_witness:
  "dt_add_minutes \<lparr>year = 2024, month = 12, day = 31, hour = 23, minute = 47\<rparr> 30 =
     Inr \<lparr>year = 2025, month = 1, day = 1, hour = 0, minute = 17\<rparr>"
  using dt_add_minutes_spec [of "\<lparr>year = 2024, month = 12, day = 31, hour = 23, minute = 47\<rparr>" 30
      "\<lparr>year = 2025, month = 1, day = 1, hour = 0, minute = 17\<rparr>"]
  by (simp add: valid_dt_def valid_date_def MINYEAR_def MAXYEAR_def abs_minutes_def toordinal_def
      ymd2ord_def days_before_year_def days_before_month_def days_in_month_def is_leap_def
      DAYS_IN_MONTH_def DAYS_BEFORE_MONTH_def)

lemma mk_datetime_Inr:
  "mk_datetime y mo d h mi = Inr t \<longleftrightarrow>
     t = \<lparr>year = y, month = mo, day = d, hour = h, minute = mi\<rparr> \<and> valid_dt t"
  by (auto simp add: mk_datetime_def valid_dt_def valid_date_def)


lemma mk_datetime_Inl: "mk_datetime y mo d h mi = Inl e \<Longrightarrow> is_value_error e"
  by (auto simp add: mk_datetime_def split: if_splits)

end
