(* ===== verification/Fetcher.thy ===== *)
theory Fetcher
  imports Json Calendar
begin

text \<open>
  The price fetcher \<open>get_prices()\<close> (lines 99--123). It reads the clock
  (\<open>time.localtime()\<close>, here the argument \<open>lt\<close>), builds
  \<open>period_current\<close>, \<open>period_next = period_current + 1h\<close> and
  \<open>period_last = period_current - 30min\<close>, formats the query string with the
  minutes coarsened to \<open>:00\<close>/\<open>:30\<close>, calls the pricing API (the argument
  \<open>api\<close>: the URL to the outcome of \<open>requests.get(url).json()\<close>, whose outer
  layer is a transport exception and inner layer the JSON decoding exception),
  and extracts three prices. The whole body sits in
  \<open>try: ... except ValueError: return 0, 0, 0\<close>: exactly the
  \<open>ValueError\<close> exceptions are replaced by the sentinel triple, every other
  exception propagates to the caller.
\<close>

record struct_time =
  tm_year :: int
  tm_mon :: int
  tm_mday :: int
  tm_hour :: int
  tm_min :: int
  tm_sec :: int
  tm_wday :: int
  tm_yday :: int

type_synonym pricing_api = "string \<Rightarrow> json pyres pyres"

definition API_URL :: string where
  "API_URL = ''https://api.octopus.energy/v1/products/AGILE-FLEX-22-11-25/electricity-tariffs/E-1R-AGILE-FLEX-22-11-25-C/standard-unit-rates/''"

text \<open>The minute field of a boundary: \<open>'00' if minute <= 29 else 30\<close>.\<close>

definition fmt_minute :: "int \<Rightarrow> string" where
  "fmt_minute m = (if m \<le> 29 then ''00'' else str_int 30)"

definition fmt_boundary :: "datetime \<Rightarrow> string" where
  "fmt_boundary t =
     str_int (year t) @ ''-'' @ str_int (month t) @ ''-'' @ str_int (day t) @ ''T'' @
     str_int (hour t) @ '':'' @ fmt_minute (minute t) @ ''Z''"

definition request_string :: "datetime \<Rightarrow> datetime \<Rightarrow> string" where
  "request_string period_last period_next =
     ''?period_from='' @ fmt_boundary period_last @ ''&period_to='' @ fmt_boundary period_next"

definition sentinel :: price3 where
  "sentinel = (JInt 0, JInt 0, JInt 0)"

text \<open>\<open>except ValueError: return 0, 0, 0\<close>.\<close>

definition except_value_error :: "price3 pyres \<Rightarrow> price3 pyres" where
  "except_value_error r = (case r of Inl e \<Rightarrow> if is_value_error e then Inr sentinel else Inl e | Inr v \<Rightarrow> Inr v)"

text \<open>The body of the \<open>try\<close> block, statement by statement.\<close>

definition get_prices_body :: "struct_time \<Rightarrow> pricing_api \<Rightarrow> price3 pyres" where
  "get_prices_body lt api =
     pyseq (mk_datetime (tm_year lt) (tm_mon lt) (tm_mday lt) (tm_hour lt) (tm_min lt)) (\<lambda>period_current.
     pyseq (dt_add_minutes period_current 60) (\<lambda>period_next.
     pyseq (dt_add_minutes period_current (-30)) (\<lambda>period_last.
     pyseq (api (API_URL @ request_string period_last period_next)) (\<lambda>request.
     pyseq request (\<lambda>json.
     extract_prices json)))))"

definition get_prices :: "struct_time \<Rightarrow> pricing_api \<Rightarrow> price3 pyres" where
  "get_prices lt api = except_value_error (get_prices_body lt api)"

text \<open>The URL the fetcher requests for a clock reading, when the window can be formed.\<close>

definition request_url :: "struct_time \<Rightarrow> string pyres" where
  "request_url lt =
     pyseq (mk_datetime (tm_year lt) (tm_mon lt) (tm_mday lt) (tm_hour lt) (tm_min lt)) (\<lambda>cur.
     pyseq (dt_add_minutes cur 60) (\<lambda>nxt.
     pyseq (dt_add_minutes cur (-30)) (\<lambda>lst.
     Inr (API_URL @ request_string lst nxt))))"

text \<open>The half-hour slot a boundary denotes once its minute is coarsened.\<close>

definition round_half :: "datetime \<Rightarrow> datetime" where
  "round_half t = t\<lparr>minute := (if minute t \<le> 29 then 0 else 30)\<rparr>"

definition floor30 :: "int \<Rightarrow> int" where
  "floor30 x = x - x mod 30"

text \<open>The clock reading of the spec's worked example: 2024-01-15 10:47:05.\<close>

definition example_clock :: struct_time where
  "example_clock = \<lparr>tm_year = 2024, tm_mon = 1, tm_mday = 15, tm_hour = 10, tm_min = 47, tm_sec = 5,
     tm_wday = 0, tm_yday = 15\<rparr>"

subsection \<open>Reading the query string back\<close>

text \<open>
  A decoder for the query string, the inverse the pricing API applies. It is
  not part of the script; it states what the unpadded fields of
  \<open>fmt_boundary\<close> determine.
\<close>

definition read_field :: "char \<Rightarrow> string \<Rightarrow> (nat \<times> string) option" where
  "read_field sep s =
     (let ds = takeWhile is_digit s; rest = dropWhile is_digit s
      in case rest of
           [] \<Rightarrow> None
         | c # rest' \<Rightarrow> if ds \<noteq> [] \<and> c = sep then Some (nat_of_digits ds, rest') else None)"

type_synonym fields = "nat \<times> nat \<times> nat \<times> nat \<times> nat"

definition parse_boundary :: "string \<Rightarrow> (fields \<times> string) option" where
  "parse_boundary s =
     (case read_field CHR ''-'' s of None \<Rightarrow> None | Some (y, s1) \<Rightarrow>
      case read_field CHR ''-'' s1 of None \<Rightarrow> None | Some (mo, s2) \<Rightarrow>
      case read_field CHR ''T'' s2 of None \<Rightarrow> None | Some (d, s3) \<Rightarrow>
      case read_field CHR '':'' s3 of None \<Rightarrow> None | Some (h, s4) \<Rightarrow>
      case read_field CHR ''Z'' s4 of None \<Rightarrow> None | Some (mi, s5) \<Rightarrow>
      Some ((y, mo, d, h, mi), s5))"

definition parse_request :: "string \<Rightarrow> (fields \<times> fields) option" where
  "parse_request s =
     (if take 13 s \<noteq> ''?period_from='' then None
      else case parse_boundary (drop 13 s) of None \<Rightarrow> None | Some (b1, r) \<Rightarrow>
        if take 11 r \<noteq> ''&period_to='' then None
        else case parse_boundary (drop 11 r) of None \<Rightarrow> None | Some (b2, r') \<Rightarrow>
          if r' = [] then Some (b1, b2) else None)"

definition boundary_fields :: "datetime \<Rightarrow> fields" where
  "boundary_fields t = (nat (year t), nat (month t), nat (day t), nat (hour t), nat (minute (round_half t)))"

text \<open>
  \<open>t = time.localtime()[0:5]\<close> as the fields of \<open>datetime(*t)\<close>: the clock
  reading truncated to the minute.
\<close>

definition clock_dt :: "struct_time \<Rightarrow> datetime" where
  "clock_dt lt = \<lparr>year = tm_year lt, month = tm_mon lt, day = tm_mday lt, hour = tm_hour lt, minute = tm_min lt\<rparr>"

text \<open>The five fields of a datetime, as the decoder returns them.\<close>

definition dt_fields :: "datetime \<Rightarrow> fields" where
  "dt_fields t = (nat (year t), nat (month t), nat (day t), nat (hour t), nat (minute t))"

section \<open>Lemmas\<close>

subsection \<open>Outcome of one fetch\<close>

lemma example_clock_url:
  "request_url example_clock = Inr (API_URL @ ''?period_from=2024-1-15T10:00Z&period_to=2024-1-15T11:30Z'')"
  by code_simp

lemma get_prices_body_url:
  "get_prices_body lt api = pyseq (request_url lt) (\<lambda>u. pyseq (api u) (\<lambda>r. pyseq r extract_prices))"
  by (simp add: get_prices_body_def request_url_def pyseq_def split: sum.splits)

lemma request_url_Inl:
  "request_url lt = Inl e \<Longrightarrow> e = OverflowError \<or> is_value_error e"
  by (auto simp: request_url_def pyseq_eq_Inl dt_add_minutes_Inl dest: mk_datetime_Inl)

lemma except_value_error_Inr [simp]: "except_value_error (Inr v) = Inr v"
  by (simp add: except_value_error_def)

lemma except_value_error_Inl:
  "except_value_error (Inl e) = (if is_value_error e then Inr sentinel else Inl e)"
  by (simp add: except_value_error_def)

lemma get_prices_at_url:
  assumes "request_url lt = Inr u"
  shows "get_prices lt api = except_value_error (pyseq (api u) (\<lambda>r. pyseq r extract_prices))"
  using assms by (simp add: get_prices_def get_prices_body_url)

text \<open>
  C1. For a response of the documented shape with at least three entries,
  the fetcher returns the \<open>value_inc_vat\<close> fields of entries 0, 1 and 2, in
  that order (the caller binds them to next, current and last price).
\<close>

lemma get_prices_valid_response:
  assumes "request_url lt = Inr u" "api u = Inr (Inr (api_response vs))" "3 \<le> length vs"
  shows "get_prices lt api = Inr (vs ! 0, vs ! 1, vs ! 2)"
proof -
  have "0 < length vs" "1 < length vs" "2 < length vs" using assms(3) by linarith+
  then show ?thesis using assms(1,2)
    by (simp add: get_prices_at_url extract_prices_def price_at_api_response)
qed

theorem get_prices_valid_response_witness:
  "request_url example_clock = Inr (API_URL @ ''?period_from=2024-1-15T10:00Z&period_to=2024-1-15T11:30Z'') \<and>
   (\<lambda>u. Inr (Inr (api_response [JFloat (2415 / 100), JFloat (2031 / 100), JFloat (1985 / 100)]))) (API_URL @ ''?period_from=2024-1-15T10:00Z&period_to=2024-1-15T11:30Z'') = Inr (Inr (api_response [JFloat (2415 / 100), JFloat (2031 / 100), JFloat (1985 / 100)])) \<and>
   3 \<le> length [JFloat (2415 / 100), JFloat (2031 / 100), JFloat (1985 / 100)] \<and>
   get_prices example_clock (\<lambda>u. Inr (Inr (api_response [JFloat (2415 / 100), JFloat (2031 / 100), JFloat (1985 / 100)]))) =
     Inr (JFloat (2415 / 100), JFloat (2031 / 100), JFloat (1985 / 100))"
  using get_prices_valid_response [OF example_clock_url, of "\<lambda>u. Inr (Inr (api_response [JFloat (2415 / 100), JFloat (2031 / 100), JFloat (1985 / 100)]))" "[JFloat (2415 / 100), JFloat (2031 / 100), JFloat (1985 / 100)]"]
    example_clock_url
  by simp

text \<open>
  C4. When the response body is not valid JSON (\<open>request.json()\<close> raises
  \<open>ValueError\<close>), the fetcher returns the sentinel triple \<open>(0, 0, 0)\<close>.
\<close>

lemma get_prices_decode_error:
  assumes "request_url lt = Inr u" "api u = Inr (Inl (ValueError msg))"
  shows "get_prices lt api = Inr sentinel"
  using assms by (simp add: get_prices_at_url except_value_error_Inl)

theorem get_prices_decode_error_witness:
  "request_url example_clock = Inr (API_URL @ ''?period_from=2024-1-15T10:00Z&period_to=2024-1-15T11:30Z'') \<and>
   get_prices example_clock (\<lambda>u. Inr (Inl (ValueError ''syntax error in JSON''))) = Inr sentinel"
  using get_prices_decode_error [OF example_clock_url, of "\<lambda>u. Inr (Inl (ValueError ''syntax error in JSON''))"]
    example_clock_url
  by simp

text \<open>
  C5. When the response is a JSON object without a \<open>results\<close> key (for
  instance an API error document), the fetcher raises \<open>KeyError\<close>: the
  handler catches only \<open>ValueError\<close>, so the exception escapes.
\<close>

lemma get_prices_missing_results:
  assumes "request_url lt = Inr u" "api u = Inr (Inr (JObj kvs))" "''results'' \<notin> fst ` set kvs"
  shows "get_prices lt api = Inl KeyError"
proof -
  have "map_of (rev kvs) ''results'' = None" using assms(3) by (simp add: map_of_eq_None_iff)
  then show ?thesis using assms(1,2)
    by (simp add: get_prices_at_url extract_prices_def price_at_def except_value_error_Inl)
qed

theorem get_prices_missing_results_witness:
  "request_url example_clock = Inr (API_URL @ ''?period_from=2024-1-15T10:00Z&period_to=2024-1-15T11:30Z'') \<and>
   ''results'' \<notin> fst ` set [(''detail'', JStr ''Invalid period'')] \<and>
   get_prices example_clock (\<lambda>u. Inr (Inr (JObj [(''detail'', JStr ''Invalid period'')]))) = Inl KeyError"
  using get_prices_missing_results [OF example_clock_url,
      of "\<lambda>u. Inr (Inr (JObj [(''detail'', JStr ''Invalid period'')]))" "[(''detail'', JStr ''Invalid period'')]"]
    example_clock_url
  by simp

text \<open>
  C6. When the response has fewer than three entries, the fetcher raises
  \<open>IndexError\<close>, which also escapes the handler.
\<close>

lemma get_prices_short_results:
  assumes "request_url lt = Inr u" "api u = Inr (Inr (api_response vs))" "length vs < 3"
  shows "get_prices lt api = Inl IndexError"
proof -
  have "extract_prices (api_response vs) = Inl IndexError"
    using assms(3) by (auto simp add: extract_prices_def price_at_api_response less_Suc_eq numeral_3_eq_3)
  then show ?thesis using assms(1,2) by (simp add: get_prices_at_url except_value_error_Inl)
qed

theorem get_prices_short_results_witness:
  "request_url example_clock = Inr (API_URL @ ''?period_from=2024-1-15T10:00Z&period_to=2024-1-15T11:30Z'') \<and> length [JInt 20, JInt 21] < 3 \<and>
   get_prices example_clock (\<lambda>u. Inr (Inr (api_response [JInt 20, JInt 21]))) = Inl IndexError"
  using get_prices_short_results [OF example_clock_url,
      of "\<lambda>u. Inr (Inr (api_response [JInt 20, JInt 21]))" "[JInt 20, JInt 21]"]
    example_clock_url
  by simp

text \<open>
  C25. An exception of the HTTP request other than \<open>ValueError\<close> (a
  network \<open>OSError\<close>) propagates out of the fetcher unchanged.
\<close>

lemma get_prices_transport_error:
  assumes "request_url lt = Inr u" "api u = Inl e" "\<not> is_value_error e"
  shows "get_prices lt api = Inl e"
  using assms by (simp add: get_prices_at_url except_value_error_Inl)

theorem get_prices_transport_error_witness:
  "request_url example_clock = Inr (API_URL @ ''?period_from=2024-1-15T10:00Z&period_to=2024-1-15T11:30Z'') \<and> \<not> is_value_error (OSError ''ECONNRESET'') \<and>
   get_prices example_clock (\<lambda>u. Inl (OSError ''ECONNRESET'')) = Inl (OSError ''ECONNRESET'')"
  using get_prices_transport_error [OF example_clock_url, of "\<lambda>u. Inl (OSError ''ECONNRESET'')" "OSError ''ECONNRESET''"]
    example_clock_url
  by simp

text \<open>
  C13. The fetcher never raises \<open>ValueError\<close>: whichever statement of its
  body raises one (the \<open>datetime\<close> constructor or \<open>request.json()\<close>), the
  handler turns it into the sentinel; only other exceptions escape.
\<close>

lemma get_prices_no_value_error:
  "get_prices lt api = Inl e \<Longrightarrow> \<not> is_value_error e"
  by (auto simp add: get_prices_def except_value_error_def split: sum.splits if_splits)

theorem get_prices_no_value_error_witness:
  "get_prices example_clock (\<lambda>u. Inl KeyError) = Inl KeyError \<and> \<not> is_value_error KeyError"
proof -
  have h: "get_prices example_clock (\<lambda>u. Inl KeyError) = Inl KeyError"
    using get_prices_at_url [OF example_clock_url, of "\<lambda>u. Inl KeyError"] by (simp add: except_value_error_Inl)
  show ?thesis using h get_prices_no_value_error [OF h] by (rule conjI)
qed

lemma get_prices_Inr_cases:
  assumes "get_prices lt api = Inr p"
  shows "p = sentinel \<or> (\<exists>u j. request_url lt = Inr u \<and> api u = Inr (Inr j) \<and> extract_prices j = Inr p)"
  using assms
  by (auto simp add: get_prices_def get_prices_body_url except_value_error_def pyseq_def
      split: sum.splits if_splits)

subsection \<open>The request window\<close>

lemma abs_minutes_round_half:
  assumes "valid_dt t"
  shows "abs_minutes (round_half t) = floor30 (abs_minutes t)"
proof -
  define q where "q = toordinal t * 48 + hour t * 2 + (if minute t \<le> 29 then 0 else 1)"
  define r where "r = minute t - (if minute t \<le> 29 then 0 else 30)"
  have eq: "abs_minutes t = 30 * q + r" by (simp add: abs_minutes_def q_def r_def)
  have b: "0 \<le> r" "r < 30" using assms by (auto simp add: valid_dt_def r_def)
  have "abs_minutes t mod 30 = r" unfolding eq by (rule mod_lin) (fact b)+
  then show ?thesis
    by (simp add: floor30_def round_half_def abs_minutes_def toordinal_def r_def)
qed

lemma floor30_shift: "floor30 (x + 30 * k) = floor30 x + 30 * k"
  by (simp add: floor30_def)

lemma floor30_bounds: "floor30 x \<le> x \<and> x < floor30 x + 30"
  by (simp add: floor30_def)

lemma round_half_window:
  assumes "valid_dt cur" "dt_add_minutes cur 60 = Inr nxt" "dt_add_minutes cur (-30) = Inr lst"
  shows "abs_minutes (round_half lst) = floor30 (abs_minutes cur) - 30 \<and>
         abs_minutes (round_half nxt) = floor30 (abs_minutes cur) + 60"
proof -
  have n: "valid_dt nxt \<and> abs_minutes nxt = abs_minutes cur + 60" using assms(2) by (rule dt_add_minutes_Inr)
  have l: "valid_dt lst \<and> abs_minutes lst = abs_minutes cur + (-30)" using assms(3) by (rule dt_add_minutes_Inr)
  show ?thesis
    using abs_minutes_round_half [of nxt] abs_minutes_round_half [of lst] n l
      floor30_shift [of "abs_minutes cur" 2] floor30_shift [of "abs_minutes cur" "-1"]
    by simp
qed


subsection \<open>The query string determines the window\<close>

lemma read_field_str_nat:
  assumes "\<not> is_digit c"
  shows "read_field c (str_nat n @ c # rest) = Some (n, rest)"
proof -
  have "takeWhile is_digit (str_nat n @ c # rest) = str_nat n"
    using assms by (simp add: takeWhile_append2)
  moreover have "dropWhile is_digit (str_nat n @ c # rest) = c # rest"
    using assms by (simp add: dropWhile_append2)
  ultimately show ?thesis by (simp add: read_field_def)
qed

lemma str_int_nonneg: "0 \<le> i \<Longrightarrow> str_int i = str_nat (nat i)"
  by (simp add: str_int_def)

lemma sep_not_digit [simp]:
  "\<not> is_digit CHR ''-''" "\<not> is_digit CHR ''T''" "\<not> is_digit CHR '':''" "\<not> is_digit CHR ''Z''"
  by (simp_all add: is_digit_def)

lemma fmt_minute_read:
  assumes "0 \<le> m" "m \<le> 59"
  shows "read_field CHR ''Z'' (fmt_minute m @ CHR ''Z'' # rest) = Some (nat (if m \<le> 29 then 0 else 30), rest)"
proof (cases "m \<le> 29")
  case True
  then show ?thesis by (simp add: fmt_minute_def read_field_def is_digit_def nat_of_digits_def digit_val_def)
next
  case False
  have "str_int 30 = str_nat 30" by (simp add: str_int_def)
  with False read_field_str_nat [of "CHR ''Z''" 30 rest] show ?thesis by (simp add: fmt_minute_def)
qed

lemma parse_boundary_fmt:
  assumes "valid_dt t"
  shows "parse_boundary (fmt_boundary t @ rest) = Some (boundary_fields t, rest)"
proof -
  have nn: "0 \<le> year t" "0 \<le> month t" "0 \<le> day t" "0 \<le> hour t" "0 \<le> minute t" "minute t \<le> 59"
    using assms by (auto simp add: valid_dt_def valid_date_def MINYEAR_def)
  show ?thesis
    using nn fmt_minute_read [of "minute t" rest]
    by (simp add: fmt_boundary_def parse_boundary_def str_int_nonneg read_field_str_nat
        boundary_fields_def round_half_def)
qed

text \<open>
  C14. The query string is unambiguous although month, day and hour are not
  zero-padded: decoding it gives back both coarsened boundaries, field by field.
\<close>

lemma parse_request_roundtrip:
  assumes "valid_dt lst" "valid_dt nxt"
  shows "parse_request (request_string lst nxt) = Some (boundary_fields lst, boundary_fields nxt)"
  using parse_boundary_fmt [OF assms(1), of "''&period_to='' @ fmt_boundary nxt"]
    parse_boundary_fmt [OF assms(2), of "[]"]
  by (simp add: parse_request_def request_string_def)

theorem parse_request_roundtrip_witness:
  "valid_dt \<lparr>year = 2024, month = 1, day = 15, hour = 10, minute = 17\<rparr> \<and> valid_dt \<lparr>year = 2024, month = 1, day = 15, hour = 11, minute = 47\<rparr> \<and>
   parse_request (request_string \<lparr>year = 2024, month = 1, day = 15, hour = 10, minute = 17\<rparr> \<lparr>year = 2024, month = 1, day = 15, hour = 11, minute = 47\<rparr>) = Some ((2024, 1, 15, 10, 0), (2024, 1, 15, 11, 30))"
proof -
  have h: "valid_dt \<lparr>year = 2024, month = 1, day = 15, hour = 10, minute = 17\<rparr>" "valid_dt \<lparr>year = 2024, month = 1, day = 15, hour = 11, minute = 47\<rparr>" by code_simp+
  show ?thesis using h parse_request_roundtrip [OF h] by (simp add: boundary_fields_def round_half_def)
qed
text \<open>
  C12. The request window, read off the URL the fetcher requests: its query
  decodes to two boundaries that are valid datetimes, the first at the start
  of the half-hour slot containing \<open>now - 30 min\<close> and the second at the
  start of the slot containing \<open>now + 60 min\<close>, where \<open>now\<close> is the clock
  reading truncated to the minute; so the window covers the last, current
  and next pricing periods.
\<close>

theorem request_window:
  assumes "request_url lt = Inr u"
  shows "\<exists>q lst nxt. u = API_URL @ q \<and> parse_request q = Some (dt_fields lst, dt_fields nxt) \<and>
           valid_dt lst \<and> valid_dt nxt \<and>
           abs_minutes lst = floor30 (abs_minutes (clock_dt lt)) - 30 \<and>
           abs_minutes nxt = floor30 (abs_minutes (clock_dt lt)) + 60"
proof -
  obtain cur nxt0 lst0 where
    mk: "mk_datetime (tm_year lt) (tm_mon lt) (tm_mday lt) (tm_hour lt) (tm_min lt) = Inr cur" and
    n0: "dt_add_minutes cur 60 = Inr nxt0" and l0: "dt_add_minutes cur (-30) = Inr lst0" and
    u: "u = API_URL @ request_string lst0 nxt0"
    using assms by (auto simp add: request_url_def)
  have c: "cur = clock_dt lt \<and> valid_dt cur" using mk unfolding mk_datetime_Inr clock_dt_def .
  then have cur: "cur = clock_dt lt" by (rule conjunct1)
  from c have vc: "valid_dt cur" by (rule conjunct2)
  have vn: "valid_dt nxt0" using dt_add_minutes_Inr [OF n0] by (rule conjunct1)
  have vl: "valid_dt lst0" using dt_add_minutes_Inr [OF l0] by (rule conjunct1)
  have pr: "parse_request (request_string lst0 nxt0) = Some (boundary_fields lst0, boundary_fields nxt0)"
    using parse_boundary_fmt [OF vl, of "''&period_to='' @ fmt_boundary nxt0"] parse_boundary_fmt [OF vn, of "[]"]
    by (simp add: parse_request_def request_string_def)
  have bf: "boundary_fields t = dt_fields (round_half t)" for t
    by (simp add: boundary_fields_def dt_fields_def round_half_def)
  have vr: "valid_dt (round_half t)" if "valid_dt t" for t
    using that by (simp add: valid_dt_def round_half_def)
  have w: "abs_minutes (round_half lst0) = floor30 (abs_minutes cur) - 30 \<and>
      abs_minutes (round_half nxt0) = floor30 (abs_minutes cur) + 60"
    using vc n0 l0 by (rule round_half_window)
  show ?thesis
  proof (intro exI conjI)
    show "u = API_URL @ request_string lst0 nxt0" by (rule u)
    show "parse_request (request_string lst0 nxt0) = Some (dt_fields (round_half lst0), dt_fields (round_half nxt0))"
      using pr by (simp only: bf)
    show "valid_dt (round_half lst0)" using vl by (rule vr)
    show "valid_dt (round_half nxt0)" using vn by (rule vr)
    show "abs_minutes (round_half lst0) = floor30 (abs_minutes (clock_dt lt)) - 30"
      using w by (simp only: cur)
    show "abs_minutes (round_half nxt0) = floor30 (abs_minutes (clock_dt lt)) + 60"
      using w by (simp only: cur)
  qed
qed

theorem request_window_witness:
  "request_url example_clock = Inr (API_URL @ ''?period_from=2024-1-15T10:00Z&period_to=2024-1-15T11:30Z'') \<and>
   (\<exists>q lst nxt. API_URL @ ''?period_from=2024-1-15T10:00Z&period_to=2024-1-15T11:30Z'' = API_URL @ q \<and>
      parse_request q = Some (dt_fields lst, dt_fields nxt) \<and> valid_dt lst \<and> valid_dt nxt \<and>
      abs_minutes lst = floor30 (abs_minutes (clock_dt example_clock)) - 30 \<and>
      abs_minutes nxt = floor30 (abs_minutes (clock_dt example_clock)) + 60)"
  using example_clock_url request_window [OF example_clock_url] by (rule conjI)



text \<open>
  C29. For every clock reading \<open>time.localtime()\<close> can return in years 2 to
  9998, building the request window (lines 106--112) raises nothing: the
  \<open>datetime\<close> constructor accepts the fields and neither
  \<open>+ timedelta(hours=1)\<close> nor \<open>- timedelta(minutes=30)\<close> overflows.
\<close>

theorem request_url_total:
  assumes "valid_dt \<lparr>year = tm_year lt, month = tm_mon lt, day = tm_mday lt, hour = tm_hour lt, minute = tm_min lt\<rparr>"
    "2 \<le> tm_year lt" "tm_year lt \<le> 9998"
  shows "\<exists>u. request_url lt = Inr u"
proof -
  define t where "t = \<lparr>year = tm_year lt, month = tm_mon lt, day = tm_mday lt, hour = tm_hour lt, minute = tm_min lt\<rparr>"
  have mk: "mk_datetime (tm_year lt) (tm_mon lt) (tm_mday lt) (tm_hour lt) (tm_min lt) = Inr t"
    using assms(1) by (simp add: mk_datetime_Inr t_def)
  have v: "valid_dt t" "2 \<le> year t" "year t \<le> 9998" using assms by (simp_all add: t_def)
  obtain nxt where nxt: "dt_add_minutes t 60 = Inr nxt" using dt_add_minutes_inner [OF v, of 60] by auto
  obtain lst where lst: "dt_add_minutes t (-30) = Inr lst" using dt_add_minutes_inner [OF v, of "-30"] by auto
  show ?thesis using mk nxt lst by (simp add: request_url_def)
qed

theorem request_url_total_witness:
  "valid_dt \<lparr>year = tm_year example_clock, month = tm_mon example_clock, day = tm_mday example_clock,
     hour = tm_hour example_clock, minute = tm_min example_clock\<rparr> \<and>
   2 \<le> tm_year example_clock \<and> tm_year example_clock \<le> 9998 \<and>
   (\<exists>u. request_url example_clock = Inr u)"
proof -
  have h: "valid_dt \<lparr>year = tm_year example_clock, month = tm_mon example_clock, day = tm_mday example_clock,
     hour = tm_hour example_clock, minute = tm_min example_clock\<rparr>"
    "2 \<le> tm_year example_clock" "tm_year example_clock \<le> 9998"
    by (simp_all add: example_clock_def valid_dt_def valid_date_def MINYEAR_def MAXYEAR_def
        days_in_month_def is_leap_def DAYS_IN_MONTH_def)
  show ?thesis using h request_url_total [OF h] by simp
qed

end
