(* ===== verification/Render.thy ===== *)
theory Render
  imports Json "HOL-Library.Word"
begin

text \<open>
  The display side and the main loop (lines 60--92 and 130--173). The
  program state the loop keeps in module globals (\<open>next_price\<close>,
  \<open>current_price\<close>, \<open>last_price\<close>, \<open>last_updated\<close>) is the record
  \<open>app_state\<close>. The calls of the display part are values of the datatype
  \<open>cmd\<close>, the call of the fetcher included (\<open>GetPrices\<close>), so a frame is
  the list of calls the loop body issues, in order. One iteration of
  \<open>while True\<close> is \<open>render_frame\<close>; it reads the clock (\<open>t_check\<close>, line
  144), calls the price fetcher only when more than 1800 seconds have passed,
  and reads the clock again after a fetch (\<open>t_after\<close>, line 146). The fetcher
  is a parameter \<open>fetch\<close> of type \<open>'e \<Rightarrow> price3 pyres\<close> (\<open>'e\<close> is what it
  reads from the environment), so the loop's lemmas hold for any fetcher; the
  root theory instantiates it with \<open>get_prices\<close>. The infinite loop is
  \<open>run_loop\<close> over a finite list of iteration environments: its behaviour on
  every finite prefix of the execution.
\<close>

section \<open>Pens\<close>

text \<open>
  \<open>display.create_pen(r, g, b)\<close> passes each channel to a \<open>uint8_t\<close>
  parameter of the C++ library, so a channel is truncated to 8 bits. A pen
  is modelled by the three channels it was created from; how the library
  packs them into a pen value is not modelled.
\<close>

record pen =
  pen_r :: "8 word"
  pen_g :: "8 word"
  pen_b :: "8 word"

definition create_pen :: "int \<Rightarrow> int \<Rightarrow> int \<Rightarrow> pen" where
  "create_pen r g b = \<lparr>pen_r = word_of_int r, pen_g = word_of_int g, pen_b = word_of_int b\<rparr>"

definition ORANGE :: pen where "ORANGE = create_pen 255 99 71"
definition ORANGE_2 :: pen where "ORANGE_2 = create_pen 255 (99 + 50) (71 + 50)"
definition ORANGE_3 :: pen where "ORANGE_3 = create_pen 255 (99 + 20) (71 + 20)"
definition ORANGE_4 :: pen where "ORANGE_4 = create_pen 255 (99 + 70) (71 + 70)"
definition WHITE :: pen where "WHITE = create_pen 255 255 255"
definition BLACK :: pen where "BLACK = create_pen 0 0 0"

definition MARGIN :: int where "MARGIN = 15"

section \<open>Drawing calls\<close>

text \<open>
  A text label is a literal or the f-string \<open>f"{price}p"\<close> of a price
  value (the formatting of a float by MicroPython is not modelled; the label
  records which value is printed).
\<close>

datatype label = Lit string | PriceLabel json

datatype cmd =
    SetPen pen                       \<comment> \<open>\<open>display.set_pen\<close>\<close>
  | Clear                            \<comment> \<open>\<open>display.clear()\<close>\<close>
  | DText string int int int int     \<comment> \<open>\<open>display.text(s, x, y, wrap, scale)\<close>\<close>
  | VCircle int int int              \<comment> \<open>\<open>Polygon().circle(x, y, r)\<close> then \<open>vector.draw\<close>\<close>
  | VFontSize nat                    \<comment> \<open>\<open>vector.set_font_size\<close>\<close>
  | VText label int int              \<comment> \<open>\<open>vector.text(s, x, y)\<close>\<close>
  | Update                           \<comment> \<open>\<open>presto.update(display)\<close>\<close>
  | GetPrices                        \<comment> \<open>\<open>get_prices()\<close> (lines 127, 145): one HTTP request\<close>
  | NewPresto                        \<comment> \<open>\<open>presto = Presto()\<close>\<close>
  | NewDisplay                       \<comment> \<open>\<open>PicoGraphics(DISPLAY_PRESTO, buffer=memoryview(presto))\<close>\<close>
  | GetBounds                        \<comment> \<open>\<open>display.get_bounds()\<close>\<close>
  | NewVector                        \<comment> \<open>\<open>vector = PicoVector(display)\<close>\<close>
  | VAntialias                       \<comment> \<open>\<open>vector.set_antialiasing(ANTIALIAS_BEST)\<close>\<close>
  | VFont string nat                 \<comment> \<open>\<open>vector.set_font(name, size)\<close>\<close>
  | VLetterSpacing nat               \<comment> \<open>\<open>vector.set_font_letter_spacing\<close>\<close>
  | VWordSpacing nat                 \<comment> \<open>\<open>vector.set_font_word_spacing\<close>\<close>
  | VSetTransform                    \<comment> \<open>\<open>vector.set_transform(Transform())\<close>\<close>

text \<open>
  The text \<open>vector.text\<close> receives: a literal, or \<open>f"{price}p"\<close>, which
  applies \<open>str\<close> to the price and appends \<open>p\<close>. \<open>str\<close> is modelled for
  the values the JSON decoder builds other than floats, lists and objects;
  MicroPython's float formatting is not modelled (\<open>None\<close>).
\<close>

fun py_str :: "json \<Rightarrow> string option" where
  "py_str JNull = Some ''None''"
| "py_str (JBool b) = Some (if b then ''True'' else ''False'')"
| "py_str (JInt i) = Some (str_int i)"
| "py_str (JStr s) = Some s"
| "py_str (JFloat r) = None"
| "py_str (JList xs) = None"
| "py_str (JObj kvs) = None"

fun label_text :: "label \<Rightarrow> string option" where
  "label_text (Lit s) = Some s"
| "label_text (PriceLabel v) = map_option (\<lambda>s. s @ ''p'') (py_str v)"

text \<open>The labels of the \<open>vector.text\<close> calls of a list of calls, in order.\<close>

fun frame_texts :: "cmd list \<Rightarrow> label list" where
  "frame_texts [] = []"
| "frame_texts (VText l x y # cs) = l # frame_texts cs"
| "frame_texts (c # cs) = frame_texts cs"

text \<open>
  Lines 61--73: the display and vector set-up, in order. The bounds the
  display reports are inputs of the script (\<open>width\<close> and \<open>height\<close> below).
\<close>

definition display_setup :: "cmd list" where
  "display_setup =
     [NewPresto, NewDisplay, GetBounds, NewVector, VAntialias, VFont ''Roboto-Medium.af'' 54,
      VLetterSpacing 100, VWordSpacing 100, VSetTransform]"

text \<open>The start-up screen, lines 87--92.\<close>

definition startup_screen :: "int \<Rightarrow> cmd list" where
  "startup_screen width =
     [SetPen ORANGE, Clear, SetPen ORANGE_3, DText ''Getting prices...'' 10 (90 + 2) width 4, Update, Update]"

section \<open>Loop state and one iteration\<close>

record app_state =
  next_price :: json
  current_price :: json
  last_price :: json
  last_updated :: int

text \<open>What one iteration reads from its environment.\<close>

record 'e frame_env =
  t_check :: int
  fetch_in :: 'e
  t_after :: int

definition price_triple :: "app_state \<Rightarrow> price3" where
  "price_triple st = (next_price st, current_price st, last_price st)"

text \<open>Lines 133--140: background and circle, drawn before the refresh check.\<close>

definition frame_prefix :: "int \<Rightarrow> cmd list" where
  "frame_prefix height = [SetPen ORANGE, Clear, SetPen ORANGE_4, VCircle 0 (height div 2) 190]"

text \<open>Lines 149--170: labels and prices, the \<open>Now\<close> value with a drop shadow.\<close>

definition draw_prices :: "app_state \<Rightarrow> cmd list" where
  "draw_prices st =
     [VFontSize 28, SetPen ORANGE_2,
      VText (Lit ''last:'') MARGIN 50, VText (PriceLabel (last_price st)) MARGIN 70,
      VFontSize 52,
      SetPen BLACK,
      VText (Lit ''Now:'') (MARGIN + 2) (120 + 2),
      VFontSize 58, VText (PriceLabel (current_price st)) (MARGIN + 2) (160 + 2),
      SetPen WHITE, VFontSize 52,
      VText (Lit ''Now:'') MARGIN 120,
      VFontSize 58, VText (PriceLabel (current_price st)) MARGIN 160,
      VFontSize 28, SetPen ORANGE_3,
      VText (Lit ''Next:'') MARGIN 195, VText (PriceLabel (next_price st)) MARGIN 215]"

text \<open>Line 144: \<open>time.time() - last_updated > 1800\<close>.\<close>

definition refresh_due :: "app_state \<Rightarrow> int \<Rightarrow> bool" where
  "refresh_due st now \<longleftrightarrow> now - last_updated st > 1800"

text \<open>
  One iteration of \<open>while True\<close> (lines 133--173): the calls it issues
  (the call of the fetcher among them, recorded as \<open>GetPrices\<close>) and
  either the new state or the exception that ends the program (only the
  fetcher can raise here; drawing is not modelled as failing).
\<close>

definition render_frame ::
  "('e \<Rightarrow> price3 pyres) \<Rightarrow> int \<Rightarrow> app_state \<Rightarrow> 'e frame_env \<Rightarrow> cmd list \<times> app_state pyres" where
  "render_frame fetch height st env =
     (let pre = frame_prefix height
      in if refresh_due st (t_check env) then
           (case fetch (fetch_in env) of
              Inl e \<Rightarrow> (pre @ [GetPrices], Inl e)
            | Inr (n, c, l) \<Rightarrow>
                let st' = st\<lparr>next_price := n, current_price := c, last_price := l,
                             last_updated := t_after env\<rparr>
                in (pre @ GetPrices # draw_prices st' @ [Update], Inr st'))
         else (pre @ draw_prices st @ [Update], Inr st))"

text \<open>The loop over a finite prefix of its iterations.\<close>

fun run_loop ::
  "('e \<Rightarrow> price3 pyres) \<Rightarrow> int \<Rightarrow> app_state \<Rightarrow> 'e frame_env list \<Rightarrow> cmd list \<times> app_state pyres" where
  "run_loop fetch height st [] = ([], Inr st)"
| "run_loop fetch height st (env # envs) =
     (case render_frame fetch height st env of
        (cmds, Inl e) \<Rightarrow> (cmds, Inl e)
      | (cmds, Inr st') \<Rightarrow> (case run_loop fetch height st' envs of (rest, r) \<Rightarrow> (cmds @ rest, r)))"

section \<open>Observations of a run\<close>

text \<open>A clock that never runs backwards: each iteration reads it at or after
  the previous reading, and the post-fetch reading is not before the check.\<close>

fun clock_mono :: "int \<Rightarrow> 'e frame_env list \<Rightarrow> bool" where
  "clock_mono c [] = True"
| "clock_mono c (env # envs) = (c \<le> t_check env \<and> t_check env \<le> t_after env \<and> clock_mono (t_after env) envs)"

fun clock_end :: "int \<Rightarrow> 'e frame_env list \<Rightarrow> int" where
  "clock_end c [] = c"
| "clock_end c (env # envs) = clock_end (t_after env) envs"

section \<open>Lemmas\<close>

subsection \<open>One iteration\<close>

lemma render_frame_cases:
  assumes "snd (render_frame fetch h st env) = Inr st'"
  obtains (keep) "\<not> refresh_due st (t_check env)" "st' = st"
  | (refresh) n c l where "refresh_due st (t_check env)" "fetch (fetch_in env) = Inr (n, c, l)"
      "st' = st\<lparr>next_price := n, current_price := c, last_price := l, last_updated := t_after env\<rparr>"
  using assms by (auto simp add: render_frame_def Let_def split: if_splits sum.splits prod.splits)

lemma frame_cmds_no_update: "Update \<notin> set (frame_prefix h)" "Update \<notin> set (draw_prices st)"
    "Update \<notin> set display_setup"
  by (simp_all add: frame_prefix_def draw_prices_def display_setup_def)

text \<open>
  C3. When at most 1800 seconds have passed since the last refresh, an
  iteration does not call the fetcher: it redraws the current prices and keeps
  the state. This includes an elapsed time of exactly 1800 seconds.
\<close>

lemma render_frame_not_due:
  "t_check env - last_updated st \<le> 1800 \<Longrightarrow>
   render_frame fetch h st env = (frame_prefix h @ draw_prices st @ [Update], Inr st)"
  by (simp add: render_frame_def refresh_due_def)

theorem render_frame_not_due_witness:
  "(1800::int) - last_updated \<lparr>next_price = JInt 1, current_price = JInt 2, last_price = JInt 3, last_updated = 0\<rparr> \<le> 1800 \<and>
   render_frame (\<lambda>_. Inl (OSError ''down'')) 480
     \<lparr>next_price = JInt 1, current_price = JInt 2, last_price = JInt 3, last_updated = 0\<rparr>
     \<lparr>t_check = 1800, fetch_in = (), t_after = 1801\<rparr> =
   (frame_prefix 480 @ draw_prices \<lparr>next_price = JInt 1, current_price = JInt 2, last_price = JInt 3, last_updated = 0\<rparr> @ [Update],
    Inr \<lparr>next_price = JInt 1, current_price = JInt 2, last_price = JInt 3, last_updated = 0\<rparr>)"
  using render_frame_not_due [of "\<lparr>t_check = 1800, fetch_in = (), t_after = 1801\<rparr>"
      "\<lparr>next_price = JInt 1, current_price = JInt 2, last_price = JInt 3, last_updated = 0\<rparr>" "\<lambda>_. Inl (OSError ''down'')" 480]
  by (simp add: refresh_due_def)

text \<open>
  C2. When more than 1800 seconds have passed and the fetcher returns a
  triple, the iteration replaces all three prices with it, records the second
  clock reading as \<open>last_updated\<close>, and draws and pushes a frame showing the
  new prices.
\<close>

lemma render_frame_due_Inr:
  "t_check env - last_updated st > 1800 \<Longrightarrow> fetch (fetch_in env) = Inr (n, c, l) \<Longrightarrow>
   render_frame fetch h st env =
     (let st' = st\<lparr>next_price := n, current_price := c, last_price := l, last_updated := t_after env\<rparr>
      in (frame_prefix h @ GetPrices # draw_prices st' @ [Update], Inr st'))"
  by (simp add: render_frame_def refresh_due_def)

theorem render_frame_due_Inr_witness:
  "(1801::int) - last_updated \<lparr>next_price = JInt 1, current_price = JInt 2, last_price = JInt 3, last_updated = 0\<rparr> > 1800 \<and> (\<lambda>_::unit. Inr (JInt 7, JInt 8, JInt 9)) () = Inr (JInt 7, JInt 8, JInt 9) \<and>
   render_frame (\<lambda>_::unit. Inr (JInt 7, JInt 8, JInt 9)) 480 \<lparr>next_price = JInt 1, current_price = JInt 2, last_price = JInt 3, last_updated = 0\<rparr> \<lparr>t_check = 1801, fetch_in = (), t_after = 1805\<rparr> =
     (frame_prefix 480 @ GetPrices # draw_prices \<lparr>next_price = JInt 7, current_price = JInt 8, last_price = JInt 9, last_updated = 1805\<rparr> @ [Update], Inr \<lparr>next_price = JInt 7, current_price = JInt 8, last_price = JInt 9, last_updated = 1805\<rparr>)"
  using render_frame_due_Inr [of "\<lparr>t_check = 1801, fetch_in = (), t_after = 1805\<rparr>" "\<lparr>next_price = JInt 1, current_price = JInt 2, last_price = JInt 3, last_updated = 0\<rparr>" "(\<lambda>_::unit. Inr (JInt 7, JInt 8, JInt 9))" "JInt 7" "JInt 8" "JInt 9" 480]
  by (simp add: refresh_due_def Let_def)

text \<open>
  C26. When the fetcher raises, the iteration ends with that exception after
  drawing only the background and the circle: no prices are drawn and the
  display is not updated.
\<close>

lemma render_frame_due_Inl:
  "t_check env - last_updated st > 1800 \<Longrightarrow> fetch (fetch_in env) = Inl e \<Longrightarrow>
   render_frame fetch h st env = (frame_prefix h @ [GetPrices], Inl e)"
  by (simp add: render_frame_def refresh_due_def)

theorem render_frame_due_Inl_witness:
  "(1801::int) - last_updated \<lparr>next_price = JInt 1, current_price = JInt 2, last_price = JInt 3, last_updated = 0\<rparr> > 1800 \<and> (\<lambda>_::unit. Inl (OSError ''timeout'')) () = Inl (OSError ''timeout'') \<and>
   render_frame (\<lambda>_::unit. Inl (OSError ''timeout'')) 480 \<lparr>next_price = JInt 1, current_price = JInt 2, last_price = JInt 3, last_updated = 0\<rparr> \<lparr>t_check = 1801, fetch_in = (), t_after = 1805\<rparr> = (frame_prefix 480 @ [GetPrices], Inl (OSError ''timeout''))"
  using render_frame_due_Inl [of "\<lparr>t_check = 1801, fetch_in = (), t_after = 1805\<rparr>" "\<lparr>next_price = JInt 1, current_price = JInt 2, last_price = JInt 3, last_updated = 0\<rparr>" "\<lambda>_::unit. Inl (OSError ''timeout'')" "OSError ''timeout''" 480]
  by (simp add: refresh_due_def)

text \<open>
  C9. Freshness: after any iteration that completes, the prices on the screen
  were fetched at most 1800 seconds before that iteration's clock reading.
\<close>

lemma render_frame_fresh:
  assumes "snd (render_frame fetch h st env) = Inr st'" "t_check env \<le> t_after env"
  shows "t_check env - last_updated st' \<le> 1800"
  using assms(1)
proof (cases rule: render_frame_cases)
  case keep
  then show ?thesis by (simp add: refresh_due_def)
next
  case (refresh n c l)
  then show ?thesis using assms(2) by simp
qed

theorem render_frame_fresh_witness:
  "snd (render_frame (\<lambda>_::unit. Inr (JInt 7, JInt 8, JInt 9)) 480 \<lparr>next_price = JInt 1, current_price = JInt 2, last_price = JInt 3, last_updated = 0\<rparr> \<lparr>t_check = 1801, fetch_in = (), t_after = 1805\<rparr>) = Inr \<lparr>next_price = JInt 7, current_price = JInt 8, last_price = JInt 9, last_updated = 1805\<rparr> \<and> (1801::int) \<le> 1805 \<and>
   1801 - last_updated \<lparr>next_price = JInt 7, current_price = JInt 8, last_price = JInt 9, last_updated = 1805\<rparr> \<le> 1800"
  using render_frame_fresh [of "(\<lambda>_::unit. Inr (JInt 7, JInt 8, JInt 9))" 480 "\<lparr>next_price = JInt 1, current_price = JInt 2, last_price = JInt 3, last_updated = 0\<rparr>" "\<lparr>t_check = 1801, fetch_in = (), t_after = 1805\<rparr>" "\<lparr>next_price = JInt 7, current_price = JInt 8, last_price = JInt 9, last_updated = 1805\<rparr>"]
  by (simp add: render_frame_def refresh_due_def Let_def)

subsection \<open>Runs\<close>

lemma clock_end_ge: "clock_mono c envs \<Longrightarrow> c \<le> clock_end c envs"
  by (induction envs arbitrary: c) fastforce+

lemma render_frame_fetches:
  "count_list (fst (render_frame fetch h st env)) GetPrices = (if refresh_due st (t_check env) then 1 else 0)"
  by (simp add: render_frame_def Let_def frame_prefix_def draw_prices_def split: sum.split prod.split)

text \<open>
  C10. Rate limit: over a run whose clock never goes backwards, the number of
  \<open>get_prices()\<close> calls (HTTP requests) the loop makes is at most the
  elapsed time since the last refresh divided by 1801 seconds, so the API is
  called at most once per half hour.
\<close>

lemma run_fetches_bound:
  "clock_mono c envs \<Longrightarrow> last_updated st \<le> c \<Longrightarrow>
   1801 * int (count_list (fst (run_loop fetch h st envs)) GetPrices) \<le> clock_end c envs - last_updated st"
proof (induction envs arbitrary: st c)
  case Nil
  then show ?case by simp
next
  case (Cons env envs)
  have mono: "c \<le> t_check env" "t_check env \<le> t_after env" "clock_mono (t_after env) envs"
    using Cons.prems(1) by simp_all
  have endge: "t_after env \<le> clock_end (t_after env) envs" using mono(3) by (rule clock_end_ge)
  obtain cmds r where rf: "render_frame fetch h st env = (cmds, r)" by (cases "render_frame fetch h st env")
  have cnt: "count_list cmds GetPrices = (if refresh_due st (t_check env) then 1 else 0)"
    using render_frame_fetches [of fetch h st env] rf by simp
  show ?case
  proof (cases r)
    case (Inl e)
    then have due: "refresh_due st (t_check env)" using rf by (cases "refresh_due st (t_check env)") (simp_all add: render_frame_def)
    have "fst (run_loop fetch h st (env # envs)) = cmds" using rf Inl by simp
    then show ?thesis using cnt due mono endge by (simp add: refresh_due_def)
  next
    case (Inr st1)
    have tr: "fst (run_loop fetch h st (env # envs)) = cmds @ fst (run_loop fetch h st1 envs)"
      using rf Inr by (simp split: prod.split)
    have "snd (render_frame fetch h st env) = Inr st1" using rf Inr by simp
    then show ?thesis
    proof (cases rule: render_frame_cases)
      case keep
      then have "1801 * int (count_list (fst (run_loop fetch h st1 envs)) GetPrices) \<le> clock_end (t_after env) envs - last_updated st"
        using Cons.IH [OF mono(3), of st1] Cons.prems(2) mono by simp
      then show ?thesis using tr cnt keep by simp
    next
      case (refresh n c' l)
      then have "1801 * int (count_list (fst (run_loop fetch h st1 envs)) GetPrices) \<le> clock_end (t_after env) envs - t_after env"
        using Cons.IH [OF mono(3), of st1] by simp
      then show ?thesis using tr cnt refresh mono by (simp add: refresh_due_def)
    qed
  qed
qed

theorem run_fetches_bound_witness:
  "clock_mono 0 [\<lparr>t_check = 1801, fetch_in = (), t_after = 1805\<rparr>, \<lparr>t_check = 3700, fetch_in = (), t_after = 3701\<rparr>] \<and> last_updated \<lparr>next_price = JInt 1, current_price = JInt 2, last_price = JInt 3, last_updated = 0\<rparr> \<le> 0 \<and>
   1801 * int (count_list (fst (run_loop (\<lambda>_::unit. Inr (JInt 7, JInt 8, JInt 9)) 480 \<lparr>next_price = JInt 1, current_price = JInt 2, last_price = JInt 3, last_updated = 0\<rparr> [\<lparr>t_check = 1801, fetch_in = (), t_after = 1805\<rparr>, \<lparr>t_check = 3700, fetch_in = (), t_after = 3701\<rparr>])) GetPrices)
     \<le> clock_end 0 [\<lparr>t_check = 1801, fetch_in = (), t_after = 1805\<rparr>, \<lparr>t_check = 3700, fetch_in = (), t_after = 3701\<rparr>] - last_updated \<lparr>next_price = JInt 1, current_price = JInt 2, last_price = JInt 3, last_updated = 0\<rparr>"
  using run_fetches_bound [of 0 "[\<lparr>t_check = 1801, fetch_in = (), t_after = 1805\<rparr>, \<lparr>t_check = 3700, fetch_in = (), t_after = 3701\<rparr>]" "\<lparr>next_price = JInt 1, current_price = JInt 2, last_price = JInt 3, last_updated = 0\<rparr>" "(\<lambda>_::unit. Inr (JInt 7, JInt 8, JInt 9))" 480]
  by simp

lemma run_loop_completes:
  assumes "\<forall>env \<in> set envs. \<exists>p. fetch (fetch_in env) = Inr p"
  shows "\<exists>st'. snd (run_loop fetch h st envs) = Inr st' \<and> count_list (fst (run_loop fetch h st envs)) Update = length envs"
  using assms
proof (induction envs arbitrary: st)
  case Nil
  then show ?case by simp
next
  case (Cons env envs)
  obtain cmds r where rf: "render_frame fetch h st env = (cmds, r)" by (cases "render_frame fetch h st env")
  have "\<exists>st1. r = Inr st1 \<and> count_list cmds Update = 1"
  proof (cases "refresh_due st (t_check env)")
    case False
    then show ?thesis using rf frame_cmds_no_update by (auto simp add: render_frame_def count_list_0_iff)
  next
    case True
    obtain n c l where "fetch (fetch_in env) = Inr (n, c, l)" using Cons.prems by (metis list.set_intros(1) prod_cases3)
    then show ?thesis using True rf frame_cmds_no_update
      by (auto simp add: render_frame_def Let_def count_list_0_iff)
  qed
  then obtain st1 where r: "r = Inr st1" and cnt: "count_list cmds Update = 1" by blast
  obtain st2 where ih: "snd (run_loop fetch h st1 envs) = Inr st2"
    "count_list (fst (run_loop fetch h st1 envs)) Update = length envs"
    using Cons.IH [of st1] Cons.prems by auto
  then show ?case using rf r cnt by (auto split: prod.splits)
qed


lemma run_loop_prices_source:
  assumes "snd (run_loop fetch h st envs) = Inr st'"
  shows "price_triple st' = price_triple st \<or> (\<exists>env \<in> set envs. fetch (fetch_in env) = Inr (price_triple st'))"
  using assms
proof (induction envs arbitrary: st)
  case Nil
  then show ?case by simp
next
  case (Cons env envs)
  obtain cmds r where rf: "render_frame fetch h st env = (cmds, r)" by (cases "render_frame fetch h st env")
  then obtain st1 where r: "r = Inr st1" and rest: "snd (run_loop fetch h st1 envs) = Inr st'"
    using Cons.prems by (cases r) (auto split: prod.splits)
  have "snd (render_frame fetch h st env) = Inr st1" using rf r by simp
  then have st1: "price_triple st1 = price_triple st \<or> fetch (fetch_in env) = Inr (price_triple st1)"
  proof (cases rule: render_frame_cases)
    case keep
    then show ?thesis by simp
  next
    case (refresh n c l)
    then show ?thesis by (simp add: price_triple_def)
  qed
  have "price_triple st' = price_triple st1 \<or> (\<exists>e \<in> set envs. fetch (fetch_in e) = Inr (price_triple st'))"
    using Cons.IH rest .
  then show ?case using st1 by auto
qed

text \<open>
  C11. Liveness: when the fetcher never raises, the loop never stops; every
  iteration pushes exactly one frame to the display.
\<close>

lemma run_loop_total:
  assumes "\<forall>x. \<exists>p. fetch x = Inr p"
  shows "\<exists>st'. snd (run_loop fetch h st envs) = Inr st' \<and> count_list (fst (run_loop fetch h st envs)) Update = length envs"
  using run_loop_completes assms by blast

theorem run_loop_total_witness:
  "(\<exists>st'. snd (run_loop (\<lambda>_::unit. Inr (JInt 7, JInt 8, JInt 9)) 480 \<lparr>next_price = JInt 1, current_price = JInt 2, last_price = JInt 3, last_updated = 0\<rparr> [\<lparr>t_check = 1801, fetch_in = (), t_after = 1805\<rparr>, \<lparr>t_check = 1900, fetch_in = (), t_after = 1900\<rparr>]) = Inr st' \<and>
      count_list (fst (run_loop (\<lambda>_::unit. Inr (JInt 7, JInt 8, JInt 9)) 480 \<lparr>next_price = JInt 1, current_price = JInt 2, last_price = JInt 3, last_updated = 0\<rparr> [\<lparr>t_check = 1801, fetch_in = (), t_after = 1805\<rparr>, \<lparr>t_check = 1900, fetch_in = (), t_after = 1900\<rparr>])) Update = 2)"
  using run_loop_total [of "(\<lambda>_::unit. Inr (JInt 7, JInt 8, JInt 9))" 480 "\<lparr>next_price = JInt 1, current_price = JInt 2, last_price = JInt 3, last_updated = 0\<rparr>" "[\<lparr>t_check = 1801, fetch_in = (), t_after = 1805\<rparr>, \<lparr>t_check = 1900, fetch_in = (), t_after = 1900\<rparr>]"]
  by simp



lemma run_loop_snd_Cons:
  "snd (run_loop fetch h st (env # envs)) =
     (case snd (render_frame fetch h st env) of Inl e \<Rightarrow> Inl e | Inr st' \<Rightarrow> snd (run_loop fetch h st' envs))"
  by (auto split: prod.splits sum.splits)


subsection \<open>How the loop ends\<close>

text \<open>
  C31. The loop only ends through a fetch that raises: when a run ends with
  an exception, the iterations split into a prefix that completed (each
  pushing one frame), followed by an iteration in which a refresh was due and
  the fetcher raised exactly that exception.
\<close>

theorem run_loop_error:
  assumes "snd (run_loop fetch h st envs) = Inl e"
  shows "\<exists>xs env ys st'. envs = xs @ env # ys \<and> snd (run_loop fetch h st xs) = Inr st' \<and>
           t_check env - last_updated st' > 1800 \<and> fetch (fetch_in env) = Inl e \<and>
           count_list (fst (run_loop fetch h st envs)) Update = length xs"
  using assms
proof (induction envs arbitrary: st)
  case Nil
  then show ?case by simp
next
  case (Cons env envs)
  show ?case
  proof (cases "refresh_due st (t_check env)")
    case due: True
    show ?thesis
    proof (cases "fetch (fetch_in env)")
      case (Inl e')
      then have "e' = e" "fst (run_loop fetch h st (env # envs)) = frame_prefix h @ [GetPrices]"
        using Cons.prems due by (simp_all add: render_frame_def)
      then have "env # envs = [] @ env # envs \<and> snd (run_loop fetch h st []) = Inr st \<and>
          t_check env - last_updated st > 1800 \<and> fetch (fetch_in env) = Inl e \<and>
          count_list (fst (run_loop fetch h st (env # envs))) Update = length ([] :: 'a frame_env list)"
        using Inl due frame_cmds_no_update(1) by (simp add: refresh_due_def count_list_0_iff)
      then show ?thesis by blast
    next
      case (Inr p)
      obtain n c l where p: "p = (n, c, l)" by (cases p) auto
      define st1 where "st1 = st\<lparr>next_price := n, current_price := c, last_price := l, last_updated := t_after env\<rparr>"
      have rf: "render_frame fetch h st env = (frame_prefix h @ GetPrices # draw_prices st1 @ [Update], Inr st1)"
        using due Inr p by (simp add: render_frame_def st1_def Let_def)
      then have "snd (run_loop fetch h st1 envs) = Inl e" using Cons.prems by (simp split: prod.splits)
      then obtain xs env' ys st' where ih: "envs = xs @ env' # ys" "snd (run_loop fetch h st1 xs) = Inr st'"
        "t_check env' - last_updated st' > 1800" "fetch (fetch_in env') = Inl e"
        "count_list (fst (run_loop fetch h st1 envs)) Update = length xs"
        using Cons.IH by blast
      have "env # envs = (env # xs) @ env' # ys \<and> snd (run_loop fetch h st (env # xs)) = Inr st' \<and>
          t_check env' - last_updated st' > 1800 \<and> fetch (fetch_in env') = Inl e \<and>
          count_list (fst (run_loop fetch h st (env # envs))) Update = length (env # xs)"
        using ih rf frame_cmds_no_update by (auto simp add: count_list_0_iff split: prod.splits)
      then show ?thesis by blast
    qed
  next
    case nd: False
    have rf: "render_frame fetch h st env = (frame_prefix h @ draw_prices st @ [Update], Inr st)"
      using nd by (simp add: render_frame_def)
    then have "snd (run_loop fetch h st envs) = Inl e" using Cons.prems by (simp split: prod.splits)
    then obtain xs env' ys st' where ih: "envs = xs @ env' # ys" "snd (run_loop fetch h st xs) = Inr st'"
      "t_check env' - last_updated st' > 1800" "fetch (fetch_in env') = Inl e"
      "count_list (fst (run_loop fetch h st envs)) Update = length xs"
      using Cons.IH by blast
    have "env # envs = (env # xs) @ env' # ys \<and> snd (run_loop fetch h st (env # xs)) = Inr st' \<and>
        t_check env' - last_updated st' > 1800 \<and> fetch (fetch_in env') = Inl e \<and>
        count_list (fst (run_loop fetch h st (env # envs))) Update = length (env # xs)"
      using ih rf frame_cmds_no_update by (auto simp add: count_list_0_iff split: prod.splits)
    then show ?thesis by blast
  qed
qed

theorem run_loop_error_witness:
  "snd (run_loop (\<lambda>b::bool. if b then Inl (OSError ''timeout'') else Inr (JInt 7, JInt 8, JInt 9)) 480
     \<lparr>next_price = JInt 1, current_price = JInt 2, last_price = JInt 3, last_updated = 0\<rparr>
     [\<lparr>t_check = 10, fetch_in = True, t_after = 10\<rparr>, \<lparr>t_check = 1801, fetch_in = False, t_after = 1802\<rparr>,
      \<lparr>t_check = 3700, fetch_in = True, t_after = 3700\<rparr>]) = Inl (OSError ''timeout'') \<and>
   (\<exists>xs env ys st'. [\<lparr>t_check = 10, fetch_in = True, t_after = 10\<rparr>, \<lparr>t_check = 1801, fetch_in = False, t_after = 1802\<rparr>,
        \<lparr>t_check = 3700, fetch_in = True, t_after = 3700\<rparr>] = xs @ env # ys \<and>
      snd (run_loop (\<lambda>b::bool. if b then Inl (OSError ''timeout'') else Inr (JInt 7, JInt 8, JInt 9)) 480
        \<lparr>next_price = JInt 1, current_price = JInt 2, last_price = JInt 3, last_updated = 0\<rparr> xs) = Inr st' \<and>
      t_check env - last_updated st' > 1800 \<and>
      (\<lambda>b::bool. if b then Inl (OSError ''timeout'') else Inr (JInt 7, JInt 8, JInt 9)) (fetch_in env) = Inl (OSError ''timeout'') \<and>
      count_list (fst (run_loop (\<lambda>b::bool. if b then Inl (OSError ''timeout'') else Inr (JInt 7, JInt 8, JInt 9)) 480
        \<lparr>next_price = JInt 1, current_price = JInt 2, last_price = JInt 3, last_updated = 0\<rparr>
        [\<lparr>t_check = 10, fetch_in = True, t_after = 10\<rparr>, \<lparr>t_check = 1801, fetch_in = False, t_after = 1802\<rparr>,
         \<lparr>t_check = 3700, fetch_in = True, t_after = 3700\<rparr>])) Update = length xs)"
proof -
  have h: "snd (run_loop (\<lambda>b::bool. if b then Inl (OSError ''timeout'') else Inr (JInt 7, JInt 8, JInt 9)) 480
     \<lparr>next_price = JInt 1, current_price = JInt 2, last_price = JInt 3, last_updated = 0\<rparr>
     [\<lparr>t_check = 10, fetch_in = True, t_after = 10\<rparr>, \<lparr>t_check = 1801, fetch_in = False, t_after = 1802\<rparr>,
      \<lparr>t_check = 3700, fetch_in = True, t_after = 3700\<rparr>]) = Inl (OSError ''timeout'')"
    by (simp add: render_frame_def refresh_due_def Let_def)
  show ?thesis using h run_loop_error [OF h] by (rule conjI)
qed


end
