(* ===== verification/Bootstrap.thy ===== *)
theory Bootstrap
  imports Prelude
begin

text \<open>
  Start-up before the display exists: reading the Wi-Fi credentials from
  \<open>secrets.py\<close> (lines 17--26) and \<open>network_connect()\<close> (lines 34--44).
  The observable effects are a trace of \<open>net_event\<close>s: console output, the
  calls on the WLAN interface, and the one-second sleeps. The interface's
  answers to \<open>wlan.isconnected()\<close> are the argument \<open>isconn\<close>: the answer
  to the \<open>k\<close>-th poll, counted from 0.
\<close>

datatype net_event =
    Print string
  | WlanActive bool
  | WlanConnect string string
  | WlanIsConnected bool
  | Sleep nat

definition SQ :: char where "SQ = CHR 0x27"

text \<open>
  Lines 17--26. \<open>None\<close> is a \<open>secrets.py\<close> without the two names, whose
  \<open>ImportError\<close> is re-raised. An empty name raises \<open>ValueError\<close>, which the
  handler prints and then swallows: execution continues with the credentials
  as they are.
\<close>

definition load_secrets :: "(string \<times> string) option \<Rightarrow> net_event list \<times> (string \<times> string) pyres" where
  "load_secrets sec =
     (case sec of
        None \<Rightarrow> ([], Inl (ImportError (SQ # ''secrets.py'' @ SQ # '' is missing from your Plasma 2350 W!'')))
      | Some (ssid, pw) \<Rightarrow>
          if ssid = '''' then ([Print (''WIFI_SSID in '' @ SQ # ''secrets.py'' @ SQ # '' is empty!'')], Inr (ssid, pw))
          else if pw = '''' then ([Print (''WIFI_PASSWORD in '' @ SQ # ''secrets.py'' @ SQ # '' is empty!'')], Inr (ssid, pw))
          else ([], Inr (ssid, pw)))"

definition connect_error :: string where
  "connect_error = ''Unable to connect to wireless network. Check your WIFI_SSID and WIFI_PASSWORD and try again.''"

text \<open>The events of one failed poll: the poll, the message and the sleep.\<close>

definition attempt_events :: "string \<Rightarrow> net_event list" where
  "attempt_events ssid = [WlanIsConnected False, Print (''Attempting connection to '' @ ssid), Sleep 1]"

text \<open>
  The \<open>while wlan.isconnected() is False\<close> loop from the poll numbered
  \<open>attempts\<close> on. The loop ends when a poll succeeds or when \<open>attempts\<close>,
  incremented after each failed poll, exceeds 10.
\<close>

function connect_loop :: "(nat \<Rightarrow> bool) \<Rightarrow> string \<Rightarrow> nat \<Rightarrow> net_event list \<times> unit pyres" where
  "connect_loop isconn ssid attempts =
     (if isconn attempts then ([WlanIsConnected True], Inr ())
      else let attempts' = attempts + 1
           in if attempts' > 10 then (attempt_events ssid, Inl (OSError connect_error))
              else (case connect_loop isconn ssid attempts' of
                      (evs, r) \<Rightarrow> (attempt_events ssid @ evs, r)))"
  by pat_completeness auto
termination
  by (relation "measure (\<lambda>(_, _, attempts). 11 - attempts)") auto

declare connect_loop.simps [simp del]

definition network_connect :: "(nat \<Rightarrow> bool) \<Rightarrow> string \<Rightarrow> string \<Rightarrow> net_event list \<times> unit pyres" where
  "network_connect isconn ssid pw =
     (case connect_loop isconn ssid 0 of
        (evs, r) \<Rightarrow> ([WlanActive True, WlanConnect ssid pw] @ evs, r))"

definition count_sleeps :: "net_event list \<Rightarrow> nat" where
  "count_sleeps evs = length (filter (\<lambda>e. e = Sleep 1) evs)"

definition count_polls :: "net_event list \<Rightarrow> nat" where
  "count_polls evs = length (filter (\<lambda>e. e = WlanIsConnected False \<or> e = WlanIsConnected True) evs)"

section \<open>Lemmas\<close>

lemma connect_loop_unfold:
  "connect_loop isconn ssid a =
     (if isconn a then ([WlanIsConnected True], Inr ())
      else if a + 1 > 10 then (attempt_events ssid, Inl (OSError connect_error))
      else (case connect_loop isconn ssid (a + 1) of (evs, r) \<Rightarrow> (attempt_events ssid @ evs, r)))"
  by (simp add: connect_loop.simps [of isconn ssid a] Let_def)

lemma connect_loop_fail:
  "a \<le> 10 \<Longrightarrow> (\<forall>k. a \<le> k \<and> k \<le> 10 \<longrightarrow> \<not> isconn k) \<Longrightarrow>
   connect_loop isconn ssid a = (concat (replicate (11 - a) (attempt_events ssid)), Inl (OSError connect_error))"
proof (induction isconn ssid a rule: connect_loop.induct)
  case (1 isconn ssid a)
  show ?case
  proof (cases "a = 10")
    case True
    with "1.prems" show ?thesis by (simp add: connect_loop_unfold)
  next
    case False
    with "1.prems" have "\<not> isconn a" "a + 1 \<le> 10" "\<not> a + 1 > 10" by auto
    moreover have "11 - a = Suc (11 - (a + 1))" using \<open>a + 1 \<le> 10\<close> by simp
    ultimately show ?thesis using "1.IH" "1.prems" by (simp add: connect_loop_unfold)
  qed
qed

lemma connect_loop_success:
  "a \<le> k \<Longrightarrow> k \<le> 10 \<Longrightarrow> isconn k \<Longrightarrow> (\<forall>j. a \<le> j \<and> j < k \<longrightarrow> \<not> isconn j) \<Longrightarrow>
   connect_loop isconn ssid a = (concat (replicate (k - a) (attempt_events ssid)) @ [WlanIsConnected True], Inr ())"
proof (induction isconn ssid a rule: connect_loop.induct)
  case (1 isconn ssid a)
  show ?case
  proof (cases "a = k")
    case True
    with "1.prems" show ?thesis by (simp add: connect_loop_unfold)
  next
    case False
    with "1.prems" have "\<not> isconn a" "a + 1 \<le> k" "\<not> a + 1 > 10" by auto
    moreover have "k - a = Suc (k - (a + 1))" using \<open>a + 1 \<le> k\<close> by simp
    ultimately show ?thesis using "1.IH" "1.prems" by (simp add: connect_loop_unfold)
  qed
qed

lemma count_sleeps_attempts [simp]:
  "count_sleeps (concat (replicate n (attempt_events ssid))) = n"
  by (induction n) (simp_all add: count_sleeps_def attempt_events_def)

lemma count_polls_attempts [simp]:
  "count_polls (concat (replicate n (attempt_events ssid))) = n"
  by (induction n) (simp_all add: count_polls_def attempt_events_def)

lemma count_polls_simps [simp]:
  "count_polls [] = 0"
  "count_polls (e # es) = (if e = WlanIsConnected False \<or> e = WlanIsConnected True then 1 else 0) + count_polls es"
  "count_polls (xs @ ys) = count_polls xs + count_polls ys"
  by (simp_all add: count_polls_def)

lemma count_sleeps_simps [simp]:
  "count_sleeps [] = 0"
  "count_sleeps (e # es) = (if e = Sleep 1 then 1 else 0) + count_sleeps es"
  "count_sleeps (xs @ ys) = count_sleeps xs + count_sleeps ys"
  by (simp_all add: count_sleeps_def)

lemma network_connect_fail:
  assumes "\<forall>k \<le> 10. \<not> isconn k"
  shows "network_connect isconn ssid pw =
           ([WlanActive True, WlanConnect ssid pw] @ concat (replicate 11 (attempt_events ssid)),
            Inl (OSError connect_error))"
  using connect_loop_fail [of 0 isconn ssid] assms by (simp add: network_connect_def)

lemma network_connect_success:
  assumes "k \<le> 10" "isconn k" "\<forall>j < k. \<not> isconn j"
  shows "network_connect isconn ssid pw =
           ([WlanActive True, WlanConnect ssid pw] @ concat (replicate k (attempt_events ssid)) @ [WlanIsConnected True],
            Inr ())"
  using connect_loop_success [of 0 k isconn ssid] assms by (simp add: network_connect_def)

lemma network_connect_prefix:
  "\<exists>evs. fst (network_connect isconn ssid pw) = WlanActive True # WlanConnect ssid pw # evs"
  by (simp add: network_connect_def split: prod.split)

lemma load_secrets_Some: "snd (load_secrets (Some (ssid, pw))) = Inr (ssid, pw)"
  by (simp add: load_secrets_def)

lemma first_connected_poll:
  fixes isconn :: "nat \<Rightarrow> bool"
  assumes "\<exists>k \<le> 10. isconn k"
  obtains k where "k \<le> 10" "isconn k" "\<forall>j < k. \<not> isconn j"
proof
  show "(LEAST k. isconn k) \<le> 10" using assms by (meson Least_le le_trans)
  show "isconn (LEAST k. isconn k)" using assms by (metis LeastI)
  show "\<forall>j < (LEAST k. isconn k). \<not> isconn j" using not_less_Least by blast
qed

text \<open>
  C19. \<open>network_connect()\<close> succeeds exactly when one of the polls numbered
  0 to 10 reports a connection, and raises \<open>OSError\<close> with the message of
  line 43 otherwise: the loop always ends, after at most 11 polls.
\<close>

lemma network_connect_outcome:
  "snd (network_connect isconn ssid pw) =
     (if \<exists>k \<le> 10. isconn k then Inr () else Inl (OSError connect_error))"
proof (cases "\<exists>k \<le> 10. isconn k")
  case True
  then obtain k where "k \<le> 10" "isconn k" "\<forall>j < k. \<not> isconn j" by (rule first_connected_poll)
  then show ?thesis using network_connect_success [of k isconn ssid pw] True by simp
next
  case False
  then show ?thesis using network_connect_fail [of isconn ssid pw] by auto
qed

lemma network_connect_outcome_witness:
  "snd (network_connect (\<lambda>k. k = 3) ''home'' ''pw'') = Inr ()"
  using network_connect_outcome [of "\<lambda>k. k = 3" "''home''" "''pw''"] by auto

text \<open>
  C21. Whatever the interface answers, \<open>network_connect()\<close> calls
  \<open>wlan.isconnected()\<close> at most 11 times.
\<close>

lemma network_connect_polls_bound: "count_polls (fst (network_connect isconn ssid pw)) \<le> 11"
proof (cases "\<exists>k \<le> 10. isconn k")
  case True
  then obtain k where "k \<le> 10" "isconn k" "\<forall>j < k. \<not> isconn j" by (rule first_connected_poll)
  then show ?thesis using network_connect_success [of k isconn ssid pw] by simp
next
  case False
  then show ?thesis using network_connect_fail [of isconn ssid pw] by simp
qed


text \<open>
  C7. When no poll reports a connection, \<open>network_connect()\<close> fails with
  \<open>OSError\<close> after exactly 11 polls and 11 one-second sleeps (the counter
  is tested with \<open>> 10\<close> after the increment).
\<close>

theorem network_connect_fail_sleeps:
  assumes "\<forall>k \<le> 10. \<not> isconn k"
  shows "count_sleeps (fst (network_connect isconn ssid pw)) = 11 \<and>
         count_polls (fst (network_connect isconn ssid pw)) = 11 \<and>
         snd (network_connect isconn ssid pw) = Inl (OSError connect_error)"
  using network_connect_fail [OF assms, of ssid pw] by simp

lemma network_connect_fail_sleeps_witness:
  "count_sleeps (fst (network_connect (\<lambda>k. False) ''home'' ''pw'')) = 11 \<and>
   count_polls (fst (network_connect (\<lambda>k. False) ''home'' ''pw'')) = 11 \<and>
   snd (network_connect (\<lambda>k. False) ''home'' ''pw'') = Inl (OSError connect_error)"
  using network_connect_fail_sleeps [of "\<lambda>k. False" "''home''" "''pw''"] by simp

text \<open>
  C20. When the first successful poll is the \<open>k\<close>-th (\<open>k \<le> 10\<close>),
  \<open>network_connect()\<close> returns normally after exactly \<open>k\<close> one-second sleeps
  and \<open>k + 1\<close> polls.
\<close>

theorem network_connect_success_sleeps:
  assumes "k \<le> 10" "isconn k" "\<forall>j < k. \<not> isconn j"
  shows "count_sleeps (fst (network_connect isconn ssid pw)) = k \<and>
         count_polls (fst (network_connect isconn ssid pw)) = k + 1 \<and>
         snd (network_connect isconn ssid pw) = Inr ()"
  using network_connect_success [OF assms, of ssid pw] by simp

lemma network_connect_success_sleeps_witness:
  "count_sleeps (fst (network_connect (\<lambda>j. j = 3) ''home'' ''pw'')) = 3 \<and>
   count_polls (fst (network_connect (\<lambda>j. j = 3) ''home'' ''pw'')) = 4 \<and>
   snd (network_connect (\<lambda>j. j = 3) ''home'' ''pw'') = Inr ()"
  using network_connect_success_sleeps [of 3 "\<lambda>j. j = 3" "''home''" "''pw''"] by simp

end
