(* ===== verification/Spec2Isabelle.thy ===== *)
theory Spec2Isabelle
  imports Prelude Json Calendar Fetcher Render Bootstrap
begin

text \<open>
  \<^bold>\<open>Verification of the Presto agile-pricing display.\<close>
  The program is the MicroPython script src/examples/agile_pricing_display.py.
  At start-up it reads Wi-Fi credentials from \<open>secrets.py\<close> (lines 17--26),
  joins the network with \<open>network_connect()\<close> (lines 34--48), prints the
  address and sets the clock over NTP (lines 51--58), sets up the display
  and its pens and draws a start-up screen (lines 60--92), records
  \<open>last_updated\<close> and fetches three prices with \<open>get_prices()\<close> (lines
  96--127), then loops forever (lines 130--173): each iteration draws the
  background, refetches when more than 1800 seconds have passed, and draws
  the last, current and next price.

  \<^bold>\<open>Theories.\<close>
  \<^item> \<open>Prelude\<close>: Python exceptions as the datatype \<open>pyexc\<close>, results as
    \<open>pyexc + 'a\<close> (\<open>Inl\<close> is a raised exception), statement sequencing
    \<open>pyseq\<close>, \<open>except ValueError\<close> as \<open>is_value_error\<close>, \<open>str()\<close> of ints
    (\<open>str_nat\<close>, \<open>str_int\<close>) with its decoder, and integer-division lemmas.
  \<^item> \<open>Json\<close>: decoded JSON values and Python subscription
    (\<open>getitem_key\<close>, \<open>getitem_idx\<close>: \<open>KeyError\<close>, \<open>IndexError\<close>,
    \<open>TypeError\<close>), and \<open>extract_prices\<close>, the tuple of line 119.
  \<^item> \<open>Calendar\<close>: the \<open>datetime\<close> semantics the script calls at lines
    106--108: construction with its \<open>ValueError\<close>s (\<open>mk_datetime\<close>) and
    \<open>timedelta\<close> addition (\<open>dt_add_minutes\<close>) through the library's
    ordinal algorithms \<open>_ymd2ord\<close>/\<open>_ord2ymd\<close> (\<open>ymd2ord\<close>, \<open>ord2ymd\<close>),
    with \<open>OverflowError\<close> outside ordinals 1 to 3652059.
  \<^item> \<open>Fetcher\<close>: \<open>get_prices()\<close> as \<open>get_prices\<close>, the body of its
    \<open>try\<close> as \<open>get_prices_body\<close> and the handler as
    \<open>except_value_error\<close>; the query string as \<open>request_string\<close>,
    \<open>fmt_boundary\<close>, \<open>fmt_minute\<close>. The clock \<open>time.localtime()\<close> is an
    argument of type \<open>struct_time\<close> and \<open>requests.get(url).json()\<close> is an
    argument \<open>api\<close> from URLs to a transport outcome of a decoding outcome.
  \<^item> \<open>Render\<close>: pens (\<open>create_pen\<close>, the three channels as passed, each
    kept to 8 bits) and the palette, the calls of the display part as the
    datatype \<open>cmd\<close> (drawing calls, set-up calls, and \<open>GetPrices\<close> for each
    call of \<open>get_prices()\<close>, i.e. each HTTP request), label strings
    (\<open>label_text\<close>), the loop state as the record \<open>app_state\<close> (the globals
    \<open>next_price\<close>, \<open>current_price\<close>, \<open>last_price\<close>, \<open>last_updated\<close>),
    one iteration as \<open>render_frame\<close> (parameterised by any fetcher) and the
    loop as \<open>run_loop\<close>.
  \<^item> \<open>Bootstrap\<close>: \<open>load_secrets\<close>, and \<open>network_connect\<close> with the
    polling loop \<open>connect_loop\<close> as a terminating \<open>function\<close>; observable
    effects are \<open>net_event\<close> traces and the answers of
    \<open>wlan.isconnected()\<close> are an argument \<open>isconn\<close> (poll number to answer).
  \<^item> This theory: the whole script as \<open>program\<close> (lines 17--58) and
    \<open>display_main\<close> (lines 60--130), over an environment record
    \<open>prog_env\<close> of everything the script reads from outside, with
    \<open>presto_fetch\<close> plugging \<open>get_prices\<close> into the loop.

  \<^bold>\<open>What is proved.\<close>
  The fetcher's result on every branch: a well-formed response gives entries
  0, 1, 2 (C1); a body that is not JSON gives the sentinel (C4); a response
  without \<open>results\<close>, a short list, or a transport error escapes as
  \<open>KeyError\<close>, \<open>IndexError\<close> or the transport exception (C5, C6, C25),
  and no \<open>ValueError\<close> ever escapes (C13). A refresh that meets a body
  that is not JSON draws every price as \<open>0p\<close> (C18).
  The URL the fetcher requests decodes to the half-hour slots containing
  \<open>now - 30 min\<close> and \<open>now + 60 min\<close> (C12); it can always be built for
  clock readings in years 2 to 9998 (C29), and the unpadded query string is
  unambiguous (C14). Calendar arithmetic refines minute arithmetic (C15), and
  \<open>_ord2ymd\<close> and \<open>_ymd2ord\<close> are mutually inverse on their whole ranges
  (C16, C17), proved by the 400/100/4-year cycle decomposition and a finite
  check of the month estimate \<open>(n + 50) >> 5\<close>. The loop refreshes
  exactly when more than 1800 s have passed (C2, C3, C26), keeps the screen
  at most 1800 s stale (C9), calls \<open>get_prices()\<close> at most once per 1801 s
  of clock time (C10), and never stops while fetches succeed (C11); it ends
  only through a due fetch that raises, after one frame per completed
  iteration (C31). The network loop always ends, after at most 11 polls
  (C19--C21), and fails after exactly 11 failed polls (C7). For the whole
  script: the displayed prices always come from one response or are the
  sentinel, always fetched from one of the run's own inputs (C8); the
  start-up trace has the order of the source (C27); missing secrets, empty
  secrets, no network and a failing NTP call behave as C28, C22, C23 and
  C30 state; and the script runs forever when its inputs allow (C24).

  \<^bold>\<open>Bounds and loops.\<close>
  \<open>while True\<close> is modelled by \<open>run_loop\<close> over a finite list of
  iterations: every finite prefix of an execution is a run, and the liveness
  claims hold for every length. The network loop needs no fuel: its counter
  bounds it, and \<open>connect_loop\<close> terminates by the measure
  \<open>11 - attempts\<close>. Dates are bounded by \<open>MAXORDINAL\<close> (year 9999), as
  in the library.

  \<^bold>\<open>Not modelled.\<close>
  The HTTP client, the JSON decoder, \<open>ntptime\<close> and the network stack are
  library code the script only calls; their outcomes are inputs.
  Rendering by PicoGraphics/PicoVector is hardware I/O: the model records
  the calls in order (including the set-up of lines 61--73,
  \<open>display_setup\<close>), not the pixels; the bounds the display reports are
  inputs. The formatting of
  float prices in \<open>f"{price}p"\<close> is not modelled: a label carries the JSON
  value it prints.
\<close>

section \<open>The whole script\<close>

text \<open>
  Everything the script does, in order: console and WLAN events, the NTP
  call, and the drawing calls.
\<close>

datatype event = Net net_event | NtpSetTime | Draw cmd

text \<open>
  What the script reads from the outside world: the contents of
  \<open>secrets.py\<close>, the answers of \<open>wlan.isconnected()\<close>, the pair
  (address, netmask) \<open>wlan.ipconfig('addr4')\<close> returns (line 51 keeps
  component 0), the outcome of \<open>ntptime.settime()\<close>, the
  display bounds, the clock at line 96, the input of the first fetch
  (line 127) and the inputs of the loop's iterations.
\<close>

record 'e prog_env =
  secrets :: "(string \<times> string) option"
  isconn :: "nat \<Rightarrow> bool"
  addr4 :: "string \<times> string"
  ntp_result :: "unit pyres"
  width :: int
  height :: int
  t_start :: int
  first_fetch :: 'e
  frames :: "'e frame_env list"

text \<open>The fetcher of the script: \<open>get_prices()\<close> with its clock reading and the API.\<close>

definition presto_fetch :: "struct_time \<times> pricing_api \<Rightarrow> price3 pyres" where
  "presto_fetch x = (case x of (lt, api) \<Rightarrow> get_prices lt api)"

definition connected_msg :: "string \<Rightarrow> string \<Rightarrow> string" where
  "connected_msg ssid ip = ''Successfully connected to '' @ ssid @ ''. Your Pimoroni Presto IP is: '' @ ip"

text \<open>
  Lines 60--173, once the clock is set: the display set-up, the start-up
  screen, the first
  \<open>get_prices()\<close> with \<open>last_updated\<close> read just before it (line 96), and
  the loop on a finite prefix of its iterations.
\<close>

definition display_main :: "('e \<Rightarrow> price3 pyres) \<Rightarrow> 'e prog_env \<Rightarrow> event list \<times> app_state pyres" where
  "display_main fetch env =
     (let evs = map Draw (display_setup @ startup_screen (width env) @ [GetPrices]) in
      case fetch (first_fetch env) of
        Inl e \<Rightarrow> (evs, Inl e)
      | Inr (n, c, l) \<Rightarrow>
          let st0 = \<lparr>next_price = n, current_price = c, last_price = l, last_updated = t_start env\<rparr>
          in (case run_loop fetch (height env) st0 (frames env) of (cmds, r) \<Rightarrow> (evs @ map Draw cmds, r)))"

text \<open>
  The whole script, lines 17--173 in order: secrets, \<open>network_connect()\<close>,
  the success message, \<open>ntptime.settime()\<close>, then \<open>display_main\<close>. The
  result is the event trace and the state the loop has reached, or the
  exception that ended the script.
\<close>

definition program :: "('e \<Rightarrow> price3 pyres) \<Rightarrow> 'e prog_env \<Rightarrow> event list \<times> app_state pyres" where
  "program fetch env =
     (case load_secrets (secrets env) of
        (evs1, Inl e) \<Rightarrow> (map Net evs1, Inl e)
      | (evs1, Inr (ssid, pw)) \<Rightarrow>
          (case network_connect (isconn env) ssid pw of
             (evs2, Inl e) \<Rightarrow> (map Net (evs1 @ evs2), Inl e)
           | (evs2, Inr _) \<Rightarrow>
               let evs3 = map Net (evs1 @ evs2 @ [Print (connected_msg ssid (fst (addr4 env)))]) @ [NtpSetTime]
               in (case ntp_result env of
                     Inl e \<Rightarrow> (evs3, Inl e)
                   | Inr _ \<Rightarrow> (case display_main fetch env of (evs, r) \<Rightarrow> (evs3 @ evs, r)))))"

subsection \<open>Example environments\<close>

text \<open>Concrete surroundings used to run the script in the examples below.\<close>

definition demo_env :: "(string \<times> string) option \<Rightarrow> (nat \<Rightarrow> bool) \<Rightarrow> 'e \<Rightarrow> 'e frame_env list \<Rightarrow> 'e prog_env" where
  "demo_env sec conn x fs =
     \<lparr>secrets = sec, isconn = conn, addr4 = (''192.168.1.42'', ''255.255.255.0''), ntp_result = Inr (), width = 480, height = 480,
      t_start = 0, first_fetch = x, frames = fs\<rparr>"

definition demo_api :: pricing_api where
  "demo_api u = Inr (Inr (api_response [JFloat (2415 / 100), JFloat (2031 / 100), JFloat (1985 / 100)]))"

section \<open>Lemmas\<close>

lemma count_list_map_inj:
  "inj f \<Longrightarrow> count_list (map f xs) (f x) = count_list xs x"
  by (induction xs) (auto dest: injD)

lemma count_list_map_Net [simp]: "count_list (map Net xs) (Draw c) = 0"
  by (induction xs) auto

lemma program_secrets_fail:
  "load_secrets (secrets env) = (evs1, Inl e) \<Longrightarrow> program fetch env = (map Net evs1, Inl e)"
  by (simp add: program_def)

lemma program_net_fail:
  "load_secrets (secrets env) = (evs1, Inr (ssid, pw)) \<Longrightarrow> network_connect (isconn env) ssid pw = (evs2, Inl e) \<Longrightarrow>
   program fetch env = (map Net (evs1 @ evs2), Inl e)"
  by (simp add: program_def)

lemma program_net_ok:
  "load_secrets (secrets env) = (evs1, Inr (ssid, pw)) \<Longrightarrow> network_connect (isconn env) ssid pw = (evs2, Inr ()) \<Longrightarrow>
   program fetch env =
     (let evs3 = map Net (evs1 @ evs2 @ [Print (connected_msg ssid (fst (addr4 env)))]) @ [NtpSetTime]
      in case ntp_result env of
           Inl e \<Rightarrow> (evs3, Inl e)
         | Inr _ \<Rightarrow> (case display_main fetch env of (evs, r) \<Rightarrow> (evs3 @ evs, r)))"
  by (simp add: program_def)

lemma display_main_Inr:
  assumes "snd (display_main fetch env) = Inr st"
  obtains n c l where "fetch (first_fetch env) = Inr (n, c, l)"
    "snd (run_loop fetch (height env)
       \<lparr>next_price = n, current_price = c, last_price = l, last_updated = t_start env\<rparr> (frames env)) = Inr st"
proof (cases "fetch (first_fetch env)")
  case (Inl e)
  then show ?thesis using assms by (simp add: display_main_def Let_def)
next
  case (Inr p)
  obtain n c l where p: "p = (n, c, l)" by (cases p) auto
  obtain cmds r where rl: "run_loop fetch (height env)
       \<lparr>next_price = n, current_price = c, last_price = l, last_updated = t_start env\<rparr> (frames env) = (cmds, r)"
    by force
  show ?thesis
    using that [of n c l] assms Inr p rl by (simp add: display_main_def Let_def)
qed

lemma program_Inr:
  assumes "snd (program fetch env) = Inr st"
  shows "snd (display_main fetch env) = Inr st"
proof -
  obtain evs1 r1 where ls: "load_secrets (secrets env) = (evs1, r1)" by force
  then obtain ssid pw where r1: "r1 = Inr (ssid, pw)"
    using assms by (cases r1) (auto simp add: program_secrets_fail)
  obtain evs2 r2 where nc: "network_connect (isconn env) ssid pw = (evs2, r2)" by force
  then have r2: "r2 = Inr ()"
    using assms ls r1 by (cases r2) (auto simp add: program_net_fail)
  obtain evs r where dm: "display_main fetch env = (evs, r)" by force
  have "ntp_result env = Inr ()"
    using assms program_net_ok [OF ls [unfolded r1] nc [unfolded r2]]
    by (cases "ntp_result env") (simp_all add: Let_def)
  then show ?thesis
    using assms program_net_ok [OF ls [unfolded r1] nc [unfolded r2]] dm by (simp add: Let_def)
qed

lemma program_connected:
  assumes ls: "load_secrets (secrets env) = (evs1, Inr (ssid, pw))"
  shows "\<exists>rest. fst (program fetch env) = map Net (evs1 @ [WlanActive True, WlanConnect ssid pw]) @ rest"
proof -
  obtain evs2 r2 where nc: "network_connect (isconn env) ssid pw = (evs2, r2)" by force
  obtain evs where evs2: "evs2 = WlanActive True # WlanConnect ssid pw # evs"
    using network_connect_prefix [of "isconn env" ssid pw] nc by auto
  show ?thesis
  proof (cases r2)
    case (Inl e)
    then show ?thesis using program_net_fail [OF ls] nc evs2 by simp
  next
    case (Inr u)
    obtain evs' r where dm: "display_main fetch env = (evs', r)" by force
    show ?thesis
      using program_net_ok [OF ls] nc Inr evs2 dm
      by (cases "ntp_result env") (simp_all add: Let_def)
  qed
qed

lemma display_main_Update:
  assumes "\<exists>p. fetch (first_fetch env) = Inr p" "\<forall>e \<in> set (frames env). \<exists>p. fetch (fetch_in e) = Inr p"
  shows "\<exists>st. snd (display_main fetch env) = Inr st \<and>
           count_list (fst (display_main fetch env)) (Draw Update) = 2 + length (frames env)"
proof -
  obtain n c l where f: "fetch (first_fetch env) = Inr (n, c, l)" using assms(1) by (metis prod_cases3)
  define st0 where "st0 = \<lparr>next_price = n, current_price = c, last_price = l, last_updated = t_start env\<rparr>"
  obtain cmds r where rl: "run_loop fetch (height env) st0 (frames env) = (cmds, r)" by force
  obtain st where "r = Inr st" "count_list cmds Update = length (frames env)"
    using run_loop_completes [OF assms(2), where h = "height env" and st = st0] rl by auto
  moreover have "inj Draw" by (simp add: inj_def)
  ultimately show ?thesis
    using f rl count_list_map_inj [of Draw]
    by (simp add: display_main_def st0_def [symmetric] startup_screen_def display_setup_def)
qed

text \<open>
  C28. Without the two names in \<open>secrets.py\<close> the script stops at once with
  the \<open>ImportError\<close> of line 24, before touching the network or the display.
\<close>

theorem program_missing_secrets:
  "secrets env = None \<Longrightarrow>
   program fetch env = ([], Inl (ImportError (SQ # ''secrets.py'' @ SQ # '' is missing from your Plasma 2350 W!'')))"
  by (simp add: program_def load_secrets_def)

theorem program_missing_secrets_witness:
  "secrets (demo_env None (\<lambda>k. True) () []) = None \<and>
   program (\<lambda>_::unit. Inr sentinel) (demo_env None (\<lambda>k. True) () []) =
     ([], Inl (ImportError (SQ # ''secrets.py'' @ SQ # '' is missing from your Plasma 2350 W!'')))"
  using program_missing_secrets [of "demo_env None (\<lambda>k. True) () []" "\<lambda>_::unit. Inr sentinel"]
  by (simp add: demo_env_def)

text \<open>
  C22. An empty \<open>WIFI_SSID\<close> does not halt the start-up: the \<open>ValueError\<close> of
  line 20 is printed by the handler of line 25, and the script goes on to
  activate the interface and connect with the empty name.
\<close>

theorem program_empty_ssid_connects:
  assumes "secrets env = Some ('''', pw)"
  shows "\<exists>rest. fst (program fetch env) =
     [Net (Print (''WIFI_SSID in '' @ SQ # ''secrets.py'' @ SQ # '' is empty!'')),
      Net (WlanActive True), Net (WlanConnect '''' pw)] @ rest"
proof -
  have "load_secrets (secrets env) = ([Print (''WIFI_SSID in '' @ SQ # ''secrets.py'' @ SQ # '' is empty!'')], Inr ('''', pw))"
    using assms by (simp add: load_secrets_def)
  then show ?thesis using program_connected by fastforce
qed

theorem program_empty_ssid_connects_witness:
  "secrets (demo_env (Some ('''', ''pw'')) (\<lambda>k. k = 2) () []) = Some ('''', ''pw'') \<and>
   (\<exists>rest. fst (program (\<lambda>_::unit. Inr sentinel) (demo_env (Some ('''', ''pw'')) (\<lambda>k. k = 2) () [])) =
     [Net (Print (''WIFI_SSID in '' @ SQ # ''secrets.py'' @ SQ # '' is empty!'')),
      Net (WlanActive True), Net (WlanConnect '''' ''pw'')] @ rest)"
  using program_empty_ssid_connects [of "demo_env (Some ('''', ''pw'')) (\<lambda>k. k = 2) () []" "''pw''" "\<lambda>_::unit. Inr sentinel"]
  by (simp add: demo_env_def)

text \<open>
  C23. When no poll of the interface reports a connection, the script ends
  with the \<open>OSError\<close> of line 44 without setting the clock or drawing
  anything: its whole trace is console and WLAN events.
\<close>

theorem program_no_network:
  assumes "secrets env = Some (ssid, pw)" "\<forall>k \<le> 10. \<not> isconn env k"
  shows "snd (program fetch env) = Inl (OSError connect_error) \<and> (\<exists>evs. fst (program fetch env) = map Net evs)"
proof -
  obtain evs1 where ls: "load_secrets (secrets env) = (evs1, Inr (ssid, pw))"
    using assms(1) load_secrets_Some [of ssid pw] by (metis prod.collapse)
  have "network_connect (isconn env) ssid pw =
          ([WlanActive True, WlanConnect ssid pw] @ concat (replicate 11 (attempt_events ssid)), Inl (OSError connect_error))"
    using assms(2) by (rule network_connect_fail)
  then have "program fetch env =
      (map Net (evs1 @ [WlanActive True, WlanConnect ssid pw] @ concat (replicate 11 (attempt_events ssid))),
       Inl (OSError connect_error))"
    using program_net_fail [OF ls] by simp
  then show ?thesis by (metis fst_conv snd_conv)
qed

theorem program_no_network_witness:
  "secrets (demo_env (Some (''home'', ''pw'')) (\<lambda>k. False) () []) = Some (''home'', ''pw'') \<and>
   snd (program (\<lambda>_::unit. Inr sentinel) (demo_env (Some (''home'', ''pw'')) (\<lambda>k. False) () [])) = Inl (OSError connect_error) \<and>
   (\<exists>evs. fst (program (\<lambda>_::unit. Inr sentinel) (demo_env (Some (''home'', ''pw'')) (\<lambda>k. False) () [])) = map Net evs)"
proof -
  have "\<forall>k \<le> 10. \<not> isconn (demo_env (Some (''home'', ''pw'')) (\<lambda>k. False) () []) k"
    by (simp add: demo_env_def)
  then show ?thesis
    using program_no_network [of "demo_env (Some (''home'', ''pw'')) (\<lambda>k. False) () []" "''home''" "''pw''" "\<lambda>_::unit. Inr sentinel"]
    by (simp add: demo_env_def)
qed

text \<open>
  C24. Liveness of the whole script: when the secrets are present, some poll
  of the first eleven succeeds, the clock is set, and no fetch raises, the
  script never stops; it pushes the start-up screen twice and then exactly
  one frame per iteration.
\<close>

theorem program_liveness:
  assumes "secrets env = Some (ssid, pw)" "\<exists>k \<le> 10. isconn env k" "ntp_result env = Inr ()"
    "\<exists>p. fetch (first_fetch env) = Inr p" "\<forall>e \<in> set (frames env). \<exists>p. fetch (fetch_in e) = Inr p"
  shows "\<exists>st. snd (program fetch env) = Inr st \<and>
           count_list (fst (program fetch env)) (Draw Update) = 2 + length (frames env)"
proof -
  obtain evs1 where ls: "load_secrets (secrets env) = (evs1, Inr (ssid, pw))"
    using assms(1) load_secrets_Some [of ssid pw] by (metis prod.collapse)
  obtain k where "k \<le> 10" "isconn env k" "\<forall>j < k. \<not> isconn env j"
    using assms(2) by (rule first_connected_poll)
  then obtain evs2 where nc: "network_connect (isconn env) ssid pw = (evs2, Inr ())"
    using network_connect_success by blast
  obtain evs r where dm: "display_main fetch env = (evs, r)" by force
  obtain st where "r = Inr st" "count_list evs (Draw Update) = 2 + length (frames env)"
    using display_main_Update [OF assms(4,5)] dm by auto
  then show ?thesis using program_net_ok [OF ls nc] assms(3) dm by (simp add: Let_def)
qed

theorem program_liveness_witness:
  "secrets (demo_env (Some (''home'', ''pw'')) (\<lambda>k. k = 2) () [\<lparr>t_check = 100, fetch_in = (), t_after = 100\<rparr>, \<lparr>t_check = 1900, fetch_in = (), t_after = 1901\<rparr>]) = Some (''home'', ''pw'') \<and>
   (\<exists>k \<le> 10. isconn (demo_env (Some (''home'', ''pw'')) (\<lambda>k. k = 2) () [\<lparr>t_check = 100, fetch_in = (), t_after = 100\<rparr>, \<lparr>t_check = 1900, fetch_in = (), t_after = 1901\<rparr>]) k) \<and>
   ntp_result (demo_env (Some (''home'', ''pw'')) (\<lambda>k. k = 2) () [\<lparr>t_check = 100, fetch_in = (), t_after = 100\<rparr>, \<lparr>t_check = 1900, fetch_in = (), t_after = 1901\<rparr>]) = Inr () \<and>
   (\<exists>st. snd (program (\<lambda>_::unit. Inr sentinel) (demo_env (Some (''home'', ''pw'')) (\<lambda>k. k = 2) () [\<lparr>t_check = 100, fetch_in = (), t_after = 100\<rparr>, \<lparr>t_check = 1900, fetch_in = (), t_after = 1901\<rparr>])) = Inr st \<and>
      count_list (fst (program (\<lambda>_::unit. Inr sentinel) (demo_env (Some (''home'', ''pw'')) (\<lambda>k. k = 2) () [\<lparr>t_check = 100, fetch_in = (), t_after = 100\<rparr>, \<lparr>t_check = 1900, fetch_in = (), t_after = 1901\<rparr>]))) (Draw Update) = 4)"
proof -
  have c: "\<exists>k \<le> (10::nat). k = 2" by auto
  show ?thesis
    using program_liveness [of "demo_env (Some (''home'', ''pw'')) (\<lambda>k. k = 2) () [\<lparr>t_check = 100, fetch_in = (), t_after = 100\<rparr>, \<lparr>t_check = 1900, fetch_in = (), t_after = 1901\<rparr>]" "''home''" "''pw''" "\<lambda>_::unit. Inr sentinel"] c
    by (simp add: demo_env_def sentinel_def)
qed

lemma display_main_prefix:
  "\<exists>rest. fst (display_main fetch env) = map Draw (display_setup @ startup_screen (width env)) @ rest"
  by (auto simp add: display_main_def Let_def split: sum.split prod.split)

text \<open>
  C30. When \<open>ntptime.settime()\<close> raises (line 58), the script ends with that
  exception right after the NTP call: the trace is console and WLAN events
  followed by the NTP call, and the display is never initialised.
\<close>

theorem program_ntp_failure:
  assumes "secrets env = Some (ssid, pw)" "\<exists>k \<le> 10. isconn env k" "ntp_result env = Inl e"
  shows "snd (program fetch env) = Inl e \<and> (\<exists>evs. fst (program fetch env) = map Net evs @ [NtpSetTime])"
proof -
  obtain evs1 where ls: "load_secrets (secrets env) = (evs1, Inr (ssid, pw))"
    using assms(1) load_secrets_Some [of ssid pw] by (metis prod.collapse)
  obtain k where "k \<le> 10" "isconn env k" "\<forall>j < k. \<not> isconn env j"
    using assms(2) by (rule first_connected_poll)
  then obtain evs2 where nc: "network_connect (isconn env) ssid pw = (evs2, Inr ())"
    using network_connect_success by blast
  have "program fetch env =
      (map Net (evs1 @ evs2 @ [Print (connected_msg ssid (fst (addr4 env)))]) @ [NtpSetTime], Inl e)"
    using program_net_ok [OF ls nc] assms(3) by (simp add: Let_def)
  then show ?thesis by (metis fst_conv snd_conv)
qed

theorem program_ntp_failure_witness:
  "snd (program (\<lambda>_::unit. Inr sentinel)
     ((demo_env (Some (''home'', ''pw'')) (\<lambda>k. k = 1) () [])\<lparr>ntp_result := Inl (OSError ''ETIMEDOUT'')\<rparr>)) = Inl (OSError ''ETIMEDOUT'') \<and>
   (\<exists>evs. fst (program (\<lambda>_::unit. Inr sentinel)
     ((demo_env (Some (''home'', ''pw'')) (\<lambda>k. k = 1) () [])\<lparr>ntp_result := Inl (OSError ''ETIMEDOUT'')\<rparr>)) = map Net evs @ [NtpSetTime])"
proof -
  have h: "secrets ((demo_env (Some (''home'', ''pw'')) (\<lambda>k. k = 1) () [])\<lparr>ntp_result := Inl (OSError ''ETIMEDOUT'')\<rparr>) = Some (''home'', ''pw'')"
    "\<exists>k \<le> 10. isconn ((demo_env (Some (''home'', ''pw'')) (\<lambda>k. k = 1) () [])\<lparr>ntp_result := Inl (OSError ''ETIMEDOUT'')\<rparr>) k"
    "ntp_result ((demo_env (Some (''home'', ''pw'')) (\<lambda>k. k = 1) () [])\<lparr>ntp_result := Inl (OSError ''ETIMEDOUT'')\<rparr>) = Inl (OSError ''ETIMEDOUT'')"
    by (auto simp add: demo_env_def)
  show ?thesis using program_ntp_failure [OF h, of "\<lambda>_::unit. Inr sentinel"] .
qed

text \<open>
  C27. The order of the start-up: when the secrets are present, the first
  successful poll is the \<open>k\<close>-th and the clock is set, the trace begins with
  the secrets messages, \<open>wlan.active(True)\<close>, \<open>wlan.connect\<close>, \<open>k\<close> failed
  polls with their messages and sleeps, the successful poll, the success
  message with component 0 of \<open>ipconfig('addr4')\<close>, the NTP call, the display
  set-up of lines 61--73 and the start-up screen, in this order.
\<close>

theorem program_startup_trace:
  assumes "secrets env = Some (ssid, pw)" "k \<le> 10" "isconn env k" "\<forall>j < k. \<not> isconn env j"
    "ntp_result env = Inr ()"
  shows "\<exists>rest. fst (program fetch env) =
     map Net (fst (load_secrets (secrets env)) @ [WlanActive True, WlanConnect ssid pw] @
              concat (replicate k (attempt_events ssid)) @
              [WlanIsConnected True, Print (connected_msg ssid (fst (addr4 env)))]) @
     [NtpSetTime] @ map Draw (display_setup @ startup_screen (width env)) @ rest"
proof -
  obtain evs1 where ls: "load_secrets (secrets env) = (evs1, Inr (ssid, pw))"
    using assms(1) load_secrets_Some [of ssid pw] by (metis prod.collapse)
  have nc: "network_connect (isconn env) ssid pw =
      ([WlanActive True, WlanConnect ssid pw] @ concat (replicate k (attempt_events ssid)) @ [WlanIsConnected True], Inr ())"
    using assms(2,3,4) by (rule network_connect_success)
  obtain rest where dm: "fst (display_main fetch env) = map Draw (display_setup @ startup_screen (width env)) @ rest"
    using display_main_prefix by blast
  have "fst (program fetch env) =
      map Net (evs1 @ ([WlanActive True, WlanConnect ssid pw] @ concat (replicate k (attempt_events ssid)) @ [WlanIsConnected True])
        @ [Print (connected_msg ssid (fst (addr4 env)))]) @ [NtpSetTime] @ fst (display_main fetch env)"
    using program_net_ok [OF ls nc] assms(5) by (simp add: Let_def split: prod.split)
  then show ?thesis using ls dm by auto
qed

theorem program_startup_trace_witness:
  "\<exists>rest. fst (program (\<lambda>_::unit. Inr sentinel) (demo_env (Some (''home'', ''pw'')) (\<lambda>k. k = 1) () [])) =
     map Net ([] @ [WlanActive True, WlanConnect ''home'' ''pw''] @ concat (replicate 1 (attempt_events ''home'')) @
              [WlanIsConnected True, Print (connected_msg ''home'' ''192.168.1.42'')]) @
     [NtpSetTime] @ map Draw (display_setup @ startup_screen 480) @ rest"
proof -
  have h: "secrets (demo_env (Some (''home'', ''pw'')) (\<lambda>k. k = 1) () []) = Some (''home'', ''pw'')"
    "(1::nat) \<le> 10" "isconn (demo_env (Some (''home'', ''pw'')) (\<lambda>k. k = 1) () []) 1"
    "\<forall>j < 1. \<not> isconn (demo_env (Some (''home'', ''pw'')) (\<lambda>k. k = 1) () []) j"
    "ntp_result (demo_env (Some (''home'', ''pw'')) (\<lambda>k. k = 1) () []) = Inr ()"
    by (simp_all add: demo_env_def)
  show ?thesis
    using program_startup_trace [OF h, of "\<lambda>_::unit. Inr sentinel"] by (simp add: demo_env_def load_secrets_def)
qed

text \<open>
  C8. The prices on the screen always belong together: in every state the
  script reaches, the three prices are the sentinel \<open>(0, 0, 0)\<close> or, as one
  triple, the entries 0, 1 and 2 of the \<open>results\<close> of a single API response
  to a request the fetcher built; never a mixture of two responses.
\<close>

theorem program_prices_invariant:
  assumes "snd (program presto_fetch env) = Inr st"
  shows "price_triple st = sentinel \<or>
         (\<exists>lt api u j. (lt, api) \<in> insert (first_fetch env) (fetch_in ` set (frames env)) \<and>
            request_url lt = Inr u \<and> api u = Inr (Inr j) \<and> extract_prices j = Inr (price_triple st))"
proof -
  obtain n c l where f: "presto_fetch (first_fetch env) = Inr (n, c, l)"
    and r: "snd (run_loop presto_fetch (height env)
              \<lparr>next_price = n, current_price = c, last_price = l, last_updated = t_start env\<rparr> (frames env)) = Inr st"
    using program_Inr [OF assms] by (rule display_main_Inr)
  have "price_triple st = (n, c, l) \<or> (\<exists>e \<in> set (frames env). presto_fetch (fetch_in e) = Inr (price_triple st))"
    using run_loop_prices_source [OF r] by (simp add: price_triple_def)
  then have "\<exists>x. x \<in> insert (first_fetch env) (fetch_in ` set (frames env)) \<and>
    presto_fetch x = Inr (price_triple st)"
  proof
    assume "price_triple st = (n, c, l)"
    then have "first_fetch env \<in> insert (first_fetch env) (fetch_in ` set (frames env)) \<and>
      presto_fetch (first_fetch env) = Inr (price_triple st)" using f by simp
    then show ?thesis by (rule exI)
  next
    assume "\<exists>e \<in> set (frames env). presto_fetch (fetch_in e) = Inr (price_triple st)"
    then obtain e where "e \<in> set (frames env)" "presto_fetch (fetch_in e) = Inr (price_triple st)" ..
    then have "fetch_in e \<in> insert (first_fetch env) (fetch_in ` set (frames env)) \<and>
      presto_fetch (fetch_in e) = Inr (price_triple st)" by simp
    then show ?thesis by (rule exI)
  qed
  then obtain x where x: "x \<in> insert (first_fetch env) (fetch_in ` set (frames env))"
    "presto_fetch x = Inr (price_triple st)" by blast
  obtain lt api where "x = (lt, api)" by force
  then show ?thesis using x get_prices_Inr_cases [of lt api "price_triple st"] by (auto simp add: presto_fetch_def)
qed

theorem program_prices_invariant_witness:
  "snd (program presto_fetch (demo_env (Some (''home'', ''pw'')) (\<lambda>k. True) (example_clock, demo_api) [\<lparr>t_check = 100, fetch_in = (example_clock, demo_api), t_after = 100\<rparr>])) =
     Inr \<lparr>next_price = JFloat (2415 / 100), current_price = JFloat (2031 / 100), last_price = JFloat (1985 / 100), last_updated = 0\<rparr> \<and>
   (price_triple \<lparr>next_price = JFloat (2415 / 100), current_price = JFloat (2031 / 100), last_price = JFloat (1985 / 100), last_updated = 0\<rparr> = sentinel \<or>
    (\<exists>lt api u j. (lt, api) \<in> insert (example_clock, demo_api) (fetch_in ` set [\<lparr>t_check = 100, fetch_in = (example_clock, demo_api), t_after = 100\<rparr>]) \<and> request_url lt = Inr u \<and> api u = Inr (Inr j) \<and>
       extract_prices j = Inr (price_triple \<lparr>next_price = JFloat (2415 / 100), current_price = JFloat (2031 / 100), last_price = JFloat (1985 / 100), last_updated = 0\<rparr>)))"
proof -
  have h: "snd (program presto_fetch (demo_env (Some (''home'', ''pw'')) (\<lambda>k. True) (example_clock, demo_api) [\<lparr>t_check = 100, fetch_in = (example_clock, demo_api), t_after = 100\<rparr>])) =
     Inr \<lparr>next_price = JFloat (2415 / 100), current_price = JFloat (2031 / 100), last_price = JFloat (1985 / 100), last_updated = 0\<rparr>"
    by code_simp
  show ?thesis using h program_prices_invariant [OF h, unfolded demo_env_def prog_env.select_convs] by (rule conjI)
qed

text \<open>
  C18. The spec's recoverable failure, end to end: when a refresh is due and
  the response body is not JSON, the iteration's frame shows every price as
  \<open>0p\<close> under the labels \<open>last:\<close>, \<open>Now:\<close> (shadow and text) and \<open>Next:\<close>.
\<close>

theorem decode_error_shows_0p:
  assumes "t_check env - last_updated st > 1800" "fetch_in env = (lt, api)"
    "request_url lt = Inr u" "api u = Inr (Inl (ValueError msg))"
  shows "map label_text (frame_texts (fst (render_frame presto_fetch h st env))) =
         map Some [''last:'', ''0p'', ''Now:'', ''0p'', ''Now:'', ''0p'', ''Next:'', ''0p'']"
proof -
  have "presto_fetch (fetch_in env) = Inr sentinel"
    using assms(2-4) by (simp add: presto_fetch_def get_prices_at_url except_value_error_Inl)
  moreover have "str_int 0 = ''0''" by code_simp
  ultimately show ?thesis
    using assms(1)
    by (simp add: render_frame_def refresh_due_def sentinel_def draw_prices_def frame_prefix_def Let_def)
qed

theorem decode_error_shows_0p_witness:
  "map label_text (frame_texts (fst (render_frame presto_fetch 480
      \<lparr>next_price = JInt 1, current_price = JInt 2, last_price = JInt 3, last_updated = 0\<rparr>
      \<lparr>t_check = 1801, fetch_in = (example_clock, \<lambda>u. Inr (Inl (ValueError ''syntax error''))), t_after = 1802\<rparr>))) =
   map Some [''last:'', ''0p'', ''Now:'', ''0p'', ''Now:'', ''0p'', ''Next:'', ''0p'']"
  using decode_error_shows_0p [of "\<lparr>t_check = 1801, fetch_in = (example_clock, \<lambda>u. Inr (Inl (ValueError ''syntax error''))), t_after = 1802\<rparr>"
      "\<lparr>next_price = JInt 1, current_price = JInt 2, last_price = JInt 3, last_updated = 0\<rparr>"
      example_clock "\<lambda>u. Inr (Inl (ValueError ''syntax error''))", OF _ _ example_clock_url]
  by simp

end
